theory Spec2Isabelle
  imports Complex_Main "HOL-Library.Sublist" "HOL-Library.Log_Nat"
begin

section \<open>Bytecap: data model\<close>

text \<open>
  The backend (\<^verbatim>\<open>packages/backend/src/index.ts\<close> and its synchronous variant with an
  explicit workspace path) works on JavaScript numbers and strings.  File sizes, the
  megabyte threshold and the warning percentages are non-negative integers in every call
  the plugin makes (\<^verbatim>\<open>stats.size\<close>, the slider setting, the literals 75 and 90), so they
  are natural numbers here; a warning band \<^verbatim>\<open>thresholdBytes * percentage / 100\<close> need
  not be an integer and is a rational.  For operands below \<open>2 ^ 53\<close> the double
  arithmetic of the source is exact on the integers, and the rounded quotient compares
  with an integer size as the exact quotient does.  Strings are lists of characters.
\<close>

record FileInfo =
  name :: string
  size_bytes :: nat
  sizeFormatted :: string

record DirectoryInfo =
  files :: "FileInfo list"
  totalSize :: nat
  totalSizeFormatted :: string
  scanPath :: string
  caidoFiles :: "FileInfo list"
  caidoTotalSize :: nat
  caidoTotalSizeFormatted :: string

text \<open>The payload of a \<^verbatim>\<open>bytecap:threshold-alert\<close> event.\<close>

datatype severity = Error | Warning

record ThresholdAlert =
  alert_type :: severity
  alert_message :: string

section \<open>Numbers and strings of the host language\<close>

definition digits10 :: string where
  "digits10 = ''0123456789''"

text \<open>Number to string, for a non-negative integer (below \<open>10 ^ 21\<close> in JavaScript).\<close>

fun showNat :: "nat \<Rightarrow> string" where
  "showNat n = (if n < 10 then [digits10 ! n] else showNat (n div 10) @ [digits10 ! (n mod 10)])"

declare showNat.simps [simp del]

text \<open>\<^verbatim>\<open>s.endsWith(suffix)\<close>.\<close>

definition endsWith :: "string \<Rightarrow> string \<Rightarrow> bool" where
  "endsWith s suf = (length suf \<le> length s \<and> drop (length s - length suf) s = suf)"

definition isCaido :: "FileInfo \<Rightarrow> bool" where
  "isCaido file = endsWith (name file) ''.caido''"

section \<open>formatBytes\<close>

text \<open>
  \<^verbatim>\<open>const sizes = ["B", "KB", "MB", "GB"]\<close>.  Reading the array past its end gives
  \<^verbatim>\<open>undefined\<close>, which the string concatenation of the source prints as the word
  \<open>undefined\<close>.
\<close>

definition sizes :: "string list" where
  "sizes = [''B'', ''KB'', ''MB'', ''GB'']"

definition sizesAt :: "nat \<Rightarrow> string" where
  "sizesAt i = (if i < length sizes then sizes ! i else ''undefined'')"

text \<open>
  \<^verbatim>\<open>Math.floor(Math.log(bytes) / Math.log(k))\<close> with \<^verbatim>\<open>k = 1024\<close>, on the real
  logarithm (the double quotient is taken as the exact one).
\<close>

definition unitIndex :: "nat \<Rightarrow> nat" where
  "unitIndex bytes = nat \<lfloor>ln (real bytes) / ln (real 1024)\<rfloor>"

text \<open>
  \<^verbatim>\<open>x.toFixed(2)\<close> picks the integer \<open>n\<close> with \<open>n / 100\<close> nearest to \<open>x\<close>, the larger
  one on a tie; \<open>toFixed2\<close> is that number of hundredths.  \<^verbatim>\<open>parseFloat\<close> and the
  conversion back to a string then print it without trailing zeros.
\<close>

definition toFixed2 :: "rat \<Rightarrow> nat" where
  "toFixed2 x = nat \<lfloor>x * 100 + 1 / 2\<rfloor>"

definition showHundredths :: "nat \<Rightarrow> string" where
  "showHundredths n =
     (let whole = n div 100; frac = n mod 100 in
      if frac = 0 then showNat whole
      else if frac mod 10 = 0 then showNat whole @ ''.'' @ [digits10 ! (frac div 10)]
      else showNat whole @ ''.'' @ [digits10 ! (frac div 10), digits10 ! (frac mod 10)])"

definition formatBytes :: "nat \<Rightarrow> string" where
  "formatBytes bytes =
     (if bytes = 0 then ''0 B''
      else let k = 1024; i = unitIndex bytes
           in showHundredths (toFixed2 (of_nat bytes / k ^ i)) @ '' '' @ sizesAt i)"

text \<open>The shape of a printed number: digits, then at most two decimals after a point.\<close>

definition isDigits :: "string \<Rightarrow> bool" where
  "isDigits s = (s \<noteq> [] \<and> list_all (\<lambda>c. c \<in> set digits10) s)"

definition isNumberText :: "string \<Rightarrow> bool" where
  "isNumberText s =
     (let whole = takeWhile (\<lambda>c. c \<noteq> CHR ''.'') s; rest = dropWhile (\<lambda>c. c \<noteq> CHR ''.'') s
      in isDigits whole \<and> (rest = [] \<or> (isDigits (tl rest) \<and> length (tl rest) \<le> 2)))"

section \<open>checkFileSizeThresholds\<close>

text \<open>
  The two result arrays and the events handed to \<^verbatim>\<open>sdk.api.send\<close>, in the order they
  are pushed.
\<close>

record EvalState =
  alerts :: "string list"
  warnings :: "string list"
  sent :: "ThresholdAlert list"

definition emptyEval :: EvalState where
  "emptyEval = \<lparr>alerts = [], warnings = [], sent = []\<rparr>"

definition pushAlert :: "string \<Rightarrow> EvalState \<Rightarrow> EvalState" where
  "pushAlert alertMessage st =
     st\<lparr>alerts := alerts st @ [alertMessage],
        sent := sent st @ [\<lparr>alert_type = Error, alert_message = alertMessage\<rparr>]\<rparr>"

definition pushWarning :: "string \<Rightarrow> EvalState \<Rightarrow> EvalState" where
  "pushWarning warningMessage st =
     st\<lparr>warnings := warnings st @ [warningMessage],
        sent := sent st @ [\<lparr>alert_type = Warning, alert_message = warningMessage\<rparr>]\<rparr>"

definition thresholdBytes :: "nat \<Rightarrow> nat" where
  "thresholdBytes thresholdMB = thresholdMB * 1024 * 1024"

definition warningThreshold :: "nat \<Rightarrow> nat \<Rightarrow> rat" where
  "warningThreshold tb percentage = (of_nat tb * of_nat percentage) / 100"

definition combinedAlertMessage :: "DirectoryInfo \<Rightarrow> nat \<Rightarrow> string" where
  "combinedAlertMessage directoryInfo thresholdMB =
     ''Combined .caido files ('' @ caidoTotalSizeFormatted directoryInfo @ '') exceed ''
       @ showNat thresholdMB @ ''MB threshold''"

definition combinedWarningMessage :: "DirectoryInfo \<Rightarrow> nat \<Rightarrow> nat \<Rightarrow> string" where
  "combinedWarningMessage directoryInfo thresholdMB percentage =
     ''Combined .caido files ('' @ caidoTotalSizeFormatted directoryInfo @ '') are at ''
       @ showNat percentage @ ''% of '' @ showNat thresholdMB @ ''MB threshold''"

definition fileAlertMessage :: "FileInfo \<Rightarrow> nat \<Rightarrow> string" where
  "fileAlertMessage file thresholdMB =
     ''File '' @ [CHR 0x22] @ name file @ [CHR 0x22] @ '' ('' @ sizeFormatted file
       @ '') exceeds '' @ showNat thresholdMB @ ''MB threshold''"

definition fileWarningMessage :: "FileInfo \<Rightarrow> nat \<Rightarrow> nat \<Rightarrow> string" where
  "fileWarningMessage file thresholdMB percentage =
     ''File '' @ [CHR 0x22] @ name file @ [CHR 0x22] @ '' ('' @ sizeFormatted file
       @ '') is at '' @ showNat percentage @ ''% of '' @ showNat thresholdMB
       @ ''MB threshold''"

text \<open>
  The loop \<^verbatim>\<open>for (const percentage of warningPercentages)\<close> with its \<^verbatim>\<open>break\<close>: the
  source has it twice, once for the combined total and once per file, differing in the
  message only, which is the parameter \<open>mk\<close>.
\<close>

fun warnLoop :: "(nat \<Rightarrow> string) \<Rightarrow> nat \<Rightarrow> nat \<Rightarrow> nat list \<Rightarrow> EvalState \<Rightarrow> EvalState" where
  "warnLoop mk sz tb [] st = st"
| "warnLoop mk sz tb (percentage # rest) st =
     (if of_nat sz \<ge> warningThreshold tb percentage
      then pushWarning (mk percentage) st
      else warnLoop mk sz tb rest st)"

text \<open>The priority check of the combined \<^verbatim>\<open>.caido\<close> files.\<close>

definition checkCombined ::
  "DirectoryInfo \<Rightarrow> nat \<Rightarrow> bool \<Rightarrow> nat list \<Rightarrow> EvalState \<Rightarrow> EvalState" where
  "checkCombined directoryInfo thresholdMB enableWarnings warningPercentages st =
     (if length (caidoFiles directoryInfo) > 0 then
        if caidoTotalSize directoryInfo \<ge> thresholdBytes thresholdMB then
          pushAlert (combinedAlertMessage directoryInfo thresholdMB) st
        else if enableWarnings then
          warnLoop (combinedWarningMessage directoryInfo thresholdMB)
            (caidoTotalSize directoryInfo) (thresholdBytes thresholdMB) warningPercentages st
        else st
      else st)"

text \<open>The body of the loop over \<^verbatim>\<open>directoryInfo.files\<close>.\<close>

definition checkFile :: "FileInfo \<Rightarrow> nat \<Rightarrow> bool \<Rightarrow> nat list \<Rightarrow> EvalState \<Rightarrow> EvalState" where
  "checkFile file thresholdMB enableWarnings warningPercentages st =
     (if \<not> endsWith (name file) ''.caido'' then
        if size_bytes file \<ge> thresholdBytes thresholdMB then
          pushAlert (fileAlertMessage file thresholdMB) st
        else if enableWarnings then
          warnLoop (fileWarningMessage file thresholdMB)
            (size_bytes file) (thresholdBytes thresholdMB) warningPercentages st
        else st
      else st)"

fun checkFiles :: "FileInfo list \<Rightarrow> nat \<Rightarrow> bool \<Rightarrow> nat list \<Rightarrow> EvalState \<Rightarrow> EvalState" where
  "checkFiles [] thresholdMB enableWarnings warningPercentages st = st"
| "checkFiles (file # rest) thresholdMB enableWarnings warningPercentages st =
     checkFiles rest thresholdMB enableWarnings warningPercentages
       (checkFile file thresholdMB enableWarnings warningPercentages st)"

text \<open>
  The last parameter is optional in the source and defaults to \<^verbatim>\<open>[75, 90]\<close>; \<open>None\<close> is
  the argument left out.
\<close>

definition defaultWarningPercentages :: "nat list" where
  "defaultWarningPercentages = [75, 90]"

definition checkFileSizeThresholds ::
  "DirectoryInfo \<Rightarrow> nat \<Rightarrow> bool \<Rightarrow> nat list option \<Rightarrow> EvalState" where
  "checkFileSizeThresholds directoryInfo thresholdMB enableWarnings warningPercentages =
     (let ps = (case warningPercentages of None \<Rightarrow> defaultWarningPercentages | Some l \<Rightarrow> l)
      in checkFiles (files directoryInfo) thresholdMB enableWarnings ps
           (checkCombined directoryInfo thresholdMB enableWarnings ps emptyEval))"

text \<open>
  Two notions for stating what the evaluation does: a size meets a band, and one
  evaluation state extended by the entries of another.
\<close>

definition meetsBand :: "nat \<Rightarrow> nat \<Rightarrow> nat \<Rightarrow> bool" where
  "meetsBand sz tb percentage = (of_nat sz \<ge> warningThreshold tb percentage)"

definition appendEval :: "EvalState \<Rightarrow> EvalState \<Rightarrow> EvalState" where
  "appendEval st d = \<lparr>alerts = alerts st @ alerts d, warnings = warnings st @ warnings d,
     sent = sent st @ sent d\<rparr>"

section \<open>expandPath\<close>

text \<open>
  \<^verbatim>\<open>String.prototype.trim\<close> removes white space and line terminators at both ends.
  Characters stand for code units below 256, where these are tab, line feed, vertical
  tab, form feed, carriage return, space and no-break space.
\<close>

definition isWhiteSpace :: "char \<Rightarrow> bool" where
  "isWhiteSpace c = (c \<in> set [CHR 0x09, CHR 0x0A, CHR 0x0B, CHR 0x0C, CHR 0x0D, CHR 0x20, CHR 0xA0])"

definition trim :: "string \<Rightarrow> string" where
  "trim s = rev (dropWhile isWhiteSpace (rev (dropWhile isWhiteSpace s)))"

definition startsWith :: "string \<Rightarrow> string \<Rightarrow> bool" where
  "startsWith s p = (take (length p) s = p)"

text \<open>
  \<^verbatim>\<open>path.replace("~", home)\<close> replaces the first \<^verbatim>\<open>~\<close> and expands the dollar patterns
  of the replacement text: \<^verbatim>\<open>$$\<close> is a dollar sign, \<^verbatim>\<open>$&\<close> the matched text, and
  \<^verbatim>\<open>$`\<close> and \<^verbatim>\<open>$'\<close> the text before and after the match.  A string pattern has no
  capture groups, so every other dollar sign stands for itself.
\<close>

fun getSubstitution :: "string \<Rightarrow> string \<Rightarrow> string \<Rightarrow> string \<Rightarrow> string" where
  "getSubstitution matched preceding following [] = []"
| "getSubstitution matched preceding following [c] = [c]"
| "getSubstitution matched preceding following (c # d # rest) =
     (if c = CHR 0x24 then
        if d = CHR 0x24 then CHR 0x24 # getSubstitution matched preceding following rest
        else if d = CHR 0x26 then matched @ getSubstitution matched preceding following rest
        else if d = CHR 0x60 then preceding @ getSubstitution matched preceding following rest
        else if d = CHR 0x27 then following @ getSubstitution matched preceding following rest
        else c # getSubstitution matched preceding following (d # rest)
      else c # getSubstitution matched preceding following (d # rest))"

definition replaceTilde :: "string \<Rightarrow> string \<Rightarrow> string" where
  "replaceTilde path home =
     (let preceding = takeWhile (\<lambda>c. c \<noteq> CHR ''~'') path;
          found = dropWhile (\<lambda>c. c \<noteq> CHR ''~'') path
      in case found of
           [] \<Rightarrow> path
         | m # following \<Rightarrow> preceding @ getSubstitution [m] preceding following home @ following)"

text \<open>
  \<^verbatim>\<open>path.replace(/\\\\ /g, " ")\<close>: in a regular expression literal each \<^verbatim>\<open>\\\<close> is one
  backslash, so the pattern is two backslashes and a space.  Every match, from left to
  right and without overlap, becomes one space.
\<close>

fun unescapeSpaces :: "string \<Rightarrow> string" where
  "unescapeSpaces (a # b # c # rest) =
     (if a = CHR 0x5C \<and> b = CHR 0x5C \<and> c = CHR 0x20
      then CHR 0x20 # unescapeSpaces rest
      else a # unescapeSpaces (b # c # rest))"
| "unescapeSpaces s = s"

text \<open>\<open>home\<close> is \<^verbatim>\<open>os.homedir()\<close>.\<close>

definition expandPath :: "string \<Rightarrow> string \<Rightarrow> string" where
  "expandPath home inputPath =
     (let path = trim inputPath;
          path = (if startsWith path ''~'' then replaceTilde path home else path)
      in unescapeSpaces path)"

section \<open>getWorkspaceFiles\<close>

text \<open>
  The file system as the walk sees it.  A directory entry is a regular file
  (\<^verbatim>\<open>isFile()\<close>) with the size \<^verbatim>\<open>statSync\<close> reports, or none when it throws; a
  directory (\<^verbatim>\<open>isDirectory()\<close>) with the entries \<^verbatim>\<open>readdirSync\<close> lists, in that order,
  or one that cannot be listed; or something else (a link, a socket).  Links are not
  followed by the walk, so what it reads is a finite tree.
\<close>

datatype fsnode =
    FileNode "nat option"
  | DirNode "(string \<times> fsnode) list"
  | LockedDir
  | OtherNode

text \<open>
  \<^verbatim>\<open>scanDirectory(dirPath, relativePath)\<close> with its two local variables \<^verbatim>\<open>files\<close> and
  \<^verbatim>\<open>totalSize\<close> as the state.  Reading the entries of anything but a listable directory
  throws, and the \<^verbatim>\<open>catch\<close> leaves the state as it is.
\<close>

fun scanDirectory :: "fsnode \<Rightarrow> string \<Rightarrow> string \<Rightarrow> FileInfo list \<times> nat \<Rightarrow> FileInfo list \<times> nat"
  and scanEntries ::
    "(string \<times> fsnode) list \<Rightarrow> string \<Rightarrow> string \<Rightarrow> FileInfo list \<times> nat \<Rightarrow> FileInfo list \<times> nat"
where
  "scanDirectory (DirNode entries) dirPath relativePath st =
     scanEntries entries dirPath relativePath st"
| "scanDirectory (FileNode sz) dirPath relativePath st = st"
| "scanDirectory LockedDir dirPath relativePath st = st"
| "scanDirectory OtherNode dirPath relativePath st = st"
| "scanEntries [] dirPath relativePath st = st"
| "scanEntries ((entryName, node) # rest) dirPath relativePath st =
     (let fullPath = dirPath @ ''/'' @ entryName;
          displayName = (if relativePath \<noteq> [] then relativePath @ ''/'' @ entryName
                         else entryName)
      in scanEntries rest dirPath relativePath
           (case node of
              FileNode (Some sz) \<Rightarrow>
                (fst st @ [\<lparr>name = displayName, size_bytes = sz, sizeFormatted = formatBytes sz\<rparr>],
                 snd st + sz)
            | FileNode None \<Rightarrow> st
            | DirNode es \<Rightarrow> scanDirectory (DirNode es) fullPath displayName st
            | LockedDir \<Rightarrow> scanDirectory LockedDir fullPath displayName st
            | OtherNode \<Rightarrow> st))"

text \<open>
  What the function reads from its surroundings: the home directory and platform of
  \<^verbatim>\<open>os\<close>, the answer of \<^verbatim>\<open>sdk.projects.getCurrent()\<close> (\<open>Inl\<close> when the call throws,
  \<open>Inr None\<close> when there is no project), the plugin path \<^verbatim>\<open>sdk.meta.path()\<close>, the node
  a path names (\<open>None\<close> when \<^verbatim>\<open>access\<close> fails), and whether \<^verbatim>\<open>sdk.api.send\<close> throws.
  The walk reads the children of the root from the tree: the path
  \<^verbatim>\<open>${dirPath}/${entry.name}\<close> names the entry just listed.  Console output is left out.
\<close>

record Project =
  getId :: string
  getPath :: string

record Env =
  homedir :: string
  platform :: string
  getCurrent :: "string + Project option"
  metaPath :: string
  lookup :: "string \<Rightarrow> fsnode option"
  sendThrows :: "string option"

definition pathExists :: "Env \<Rightarrow> string \<Rightarrow> bool" where
  "pathExists env path = (lookup env path \<noteq> None)"

definition getCaidoProjectsDir :: "Env \<Rightarrow> string" where
  "getCaidoProjectsDir env =
     (let home = homedir env in
      if platform env = ''darwin'' then
        home @ ''/Library/Application Support/io.caido.Caido/projects''
      else if platform env = ''linux'' then home @ ''/.local/share/caido/projects''
      else if platform env = ''win32'' then home @ ''/caido/Caido/data/projects''
      else home @ ''/projects'')"

definition emptyInfo :: "string \<Rightarrow> DirectoryInfo" where
  "emptyInfo path =
     \<lparr>files = [], totalSize = 0, totalSizeFormatted = ''0 B'', scanPath = path,
      caidoFiles = [], caidoTotalSize = 0, caidoTotalSizeFormatted = ''0 B''\<rparr>"

definition EMPTY_INFO :: DirectoryInfo where
  "EMPTY_INFO = emptyInfo ''''"

text \<open>The payload of the \<^verbatim>\<open>bytecap:file-scan-complete\<close> event.\<close>

record ScanSummary =
  fileCount :: nat
  caidoFileCount :: nat
  summaryTotalSize :: string
  summaryCaidoTotalSize :: string

text \<open>
  \<^verbatim>\<open>files.sort((a, b) => b.size - a.size)\<close>: a stable sort, larger sizes first.
\<close>

definition sortBySizeDesc :: "FileInfo list \<Rightarrow> FileInfo list" where
  "sortBySizeDesc fs = sort_key (\<lambda>file. - int (size_bytes file)) fs"

text \<open>
  From the walk to the returned object, the text both variants of the function share:
  scan, sort, filter the \<^verbatim>\<open>.caido\<close> files, add their sizes up, send the summary.
\<close>

definition scanAndSummarise ::
  "Env \<Rightarrow> fsnode \<Rightarrow> string \<Rightarrow> string + (DirectoryInfo \<times> ScanSummary option)" where
  "scanAndSummarise env node path =
     (let scanned = scanDirectory node path '''' ([], 0);
          files = sortBySizeDesc (fst scanned);
          totalSize = snd scanned;
          caidoFiles = filter (\<lambda>file. endsWith (name file) ''.caido'') files;
          caidoTotalSize = foldl (\<lambda>total file. total + size_bytes file) 0 caidoFiles;
          summary = \<lparr>fileCount = length files, caidoFileCount = length caidoFiles,
                     summaryTotalSize = formatBytes totalSize,
                     summaryCaidoTotalSize = formatBytes caidoTotalSize\<rparr>
      in case sendThrows env of
           Some err \<Rightarrow> Inl err
         | None \<Rightarrow>
             Inr (\<lparr>files = files, totalSize = totalSize,
                    totalSizeFormatted = formatBytes totalSize, scanPath = path,
                    caidoFiles = caidoFiles, caidoTotalSize = caidoTotalSize,
                    caidoTotalSizeFormatted = formatBytes caidoTotalSize\<rparr>,
                  Some summary))"

text \<open>
  The variant of \<^verbatim>\<open>packages/backend/src/index.ts\<close>: the body of the \<^verbatim>\<open>try\<close>, with
  \<open>Inl\<close> for an exception, and the function with its \<^verbatim>\<open>catch\<close>.  The result is the
  returned object and the summary event, if one was sent.
\<close>

definition getWorkspaceFiles_try :: "Env \<Rightarrow> string + (DirectoryInfo \<times> ScanSummary option)" where
  "getWorkspaceFiles_try env =
     (case getCurrent env of
        Inl err \<Rightarrow> Inl err
      | Inr None \<Rightarrow> Inr (EMPTY_INFO, None)
      | Inr (Some project) \<Rightarrow>
          (let projectDir = getPath project in
           case lookup env projectDir of
             None \<Rightarrow> Inr (EMPTY_INFO, None)
           | Some node \<Rightarrow> scanAndSummarise env node projectDir))"

definition getWorkspaceFiles :: "Env \<Rightarrow> DirectoryInfo \<times> ScanSummary option" where
  "getWorkspaceFiles env =
     (case getWorkspaceFiles_try env of
        Inl err \<Rightarrow> (EMPTY_INFO, None)
      | Inr r \<Rightarrow> r)"

text \<open>
  The variant with an optional workspace path (\<open>None\<close> for \<^verbatim>\<open>null\<close> or \<^verbatim>\<open>undefined\<close>).
  \<open>resolvePath\<close> is its first part, up to \<^verbatim>\<open>Final scan path\<close>, and \<open>projectPath\<close> the
  \<^verbatim>\<open>else\<close> branch of it: \<open>Inr None\<close> is the early return for no current project.
\<close>

definition projectPath :: "Env \<Rightarrow> string + string option" where
  "projectPath env =
     (case getCurrent env of
        Inl err \<Rightarrow> Inl err
      | Inr None \<Rightarrow> Inr None
      | Inr (Some project) \<Rightarrow>
          (let caidoProjectsDir = getCaidoProjectsDir env;
               projectDir = caidoProjectsDir @ ''/'' @ getId project
           in if pathExists env projectDir then Inr (Some projectDir)
              else Inr (Some (metaPath env))))"

definition resolvePath :: "Env \<Rightarrow> string option \<Rightarrow> string + string option" where
  "resolvePath env workspacePath =
     (case workspacePath of
        None \<Rightarrow> projectPath env
      | Some w \<Rightarrow>
          if length w > 0 then Inr (Some (expandPath (homedir env) w))
          else projectPath env)"

definition getWorkspaceFilesAt_try ::
  "Env \<Rightarrow> string option \<Rightarrow> string + (DirectoryInfo \<times> ScanSummary option)" where
  "getWorkspaceFilesAt_try env workspacePath =
     (case resolvePath env workspacePath of
        Inl err \<Rightarrow> Inl err
      | Inr None \<Rightarrow> Inr (emptyInfo '''', None)
      | Inr (Some path) \<Rightarrow>
          (case lookup env path of
             None \<Rightarrow> Inr (emptyInfo path, None)
           | Some node \<Rightarrow> scanAndSummarise env node path))"

definition getWorkspaceFilesAt :: "Env \<Rightarrow> string option \<Rightarrow> DirectoryInfo \<times> ScanSummary option" where
  "getWorkspaceFilesAt env workspacePath =
     (case getWorkspaceFilesAt_try env workspacePath of
        Inl err \<Rightarrow> (emptyInfo ''error'', None)
      | Inr r \<Rightarrow> r)"

text \<open>The invariant of an inventory, and an inventory without files.\<close>

definition inventoryInvariant :: "DirectoryInfo \<Rightarrow> bool" where
  "inventoryInvariant info =
     (totalSize info = sum_list (map size_bytes (files info)) \<and>
      caidoFiles info = filter isCaido (files info) \<and>
      caidoTotalSize info = sum_list (map size_bytes (filter isCaido (files info))) \<and>
      subseq (caidoFiles info) (files info))"

definition isEmptyInventory :: "DirectoryInfo \<Rightarrow> bool" where
  "isEmptyInventory info =
     (files info = [] \<and> totalSize info = 0 \<and> caidoFiles info = [] \<and> caidoTotalSize info = 0 \<and>
      totalSizeFormatted info = ''0 B'' \<and> caidoTotalSizeFormatted info = ''0 B'')"

text \<open>A small workspace on which the definitions are evaluated.\<close>

definition exampleTree :: fsnode where
  "exampleTree =
     DirNode [(''b.caido'', FileNode (Some 5242880)),
              (''logs'', DirNode [(''c.txt'', FileNode (Some 3145728)),
                                  (''gone.txt'', FileNode None)]),
              (''a.caido'', FileNode (Some 6291456)),
              (''secret'', LockedDir),
              (''link'', OtherNode)]"

definition exampleEnv :: Env where
  "exampleEnv =
     \<lparr>homedir = ''/home/u'', platform = ''linux'',
      getCurrent = Inr (Some \<lparr>getId = ''p1'', getPath = ''/data/p1''\<rparr>),
      metaPath = ''/plugin'',
      lookup = (\<lambda>p. if p = ''/data/p1'' \<or> p = ''/home/u/ws'' then Some exampleTree else None),
      sendThrows = None\<rparr>"

section \<open>The alert escalation of the frontend\<close>

text \<open>
  \<^verbatim>\<open>showThresholdAlert\<close> and \<^verbatim>\<open>clearAllNotifications\<close> of \<^verbatim>\<open>App.vue\<close> work on the set
  \<^verbatim>\<open>ignoredAlerts\<close>, on the map \<^verbatim>\<open>alertCounters\<close> from alert keys to counter objects, and
  on the interval timers of the window.  A counter object is shared between the map and
  the closures of the timers created for it, so counters live in a store, addressed by
  numbers; the map is an association list in insertion order.  A live timer holds what
  its closure captured, the alert and the address of the counter, and the time in
  milliseconds at which it fires next.  Timer identifiers are positive numbers, handed
  out in order.  \<open>shown\<close> records every \<^verbatim>\<open>confirm\<close> dialog displayed, as alert key and
  alert number.
\<close>

record Counter =
  count :: nat
  intervalId :: "nat option"

record Timer =
  timerAlert :: ThresholdAlert
  timerCounter :: nat
  due :: nat

record Escalator =
  ignoredAlerts :: "string set"
  alertCounters :: "(string \<times> nat) list"
  counters :: "nat \<Rightarrow> Counter"
  nextCounter :: nat
  timers :: "(nat \<times> Timer) list"
  nextTimerId :: nat
  flashBanner :: "ThresholdAlert option"
  uiAlerts :: "string list"
  uiWarnings :: "string list"
  now :: nat
  shown :: "(string \<times> nat) list"

text \<open>The interval of \<^verbatim>\<open>setInterval\<close>, one minute.\<close>

definition repeatInterval :: nat where
  "repeatInterval = 60000"

definition severityText :: "severity \<Rightarrow> string" where
  "severityText t = (case t of Error \<Rightarrow> ''error'' | Warning \<Rightarrow> ''warning'')"

definition alertKey :: "ThresholdAlert \<Rightarrow> string" where
  "alertKey alert = severityText (alert_type alert) @ '':'' @ alert_message alert"

definition clearInterval :: "nat \<Rightarrow> Escalator \<Rightarrow> Escalator" where
  "clearInterval i s = s\<lparr>timers := filter (\<lambda>(j, t). j \<noteq> i) (timers s)\<rparr>"

text \<open>
  \<^verbatim>\<open>if (counter.intervalId) { clearInterval(counter.intervalId); delete counter.intervalId; }\<close>
  for the counter at address \<open>a\<close>.
\<close>

definition cancelRepeat :: "nat \<Rightarrow> Escalator \<Rightarrow> Escalator" where
  "cancelRepeat a s =
     (case intervalId (counters s a) of
        None \<Rightarrow> s
      | Some i \<Rightarrow>
          (clearInterval i s)\<lparr>counters := (counters s)(a := (counters s a)\<lparr>intervalId := None\<rparr>)\<rparr>)"

text \<open>
  \<^verbatim>\<open>showSingleAlert(alertNumber)\<close>, a closure over the alert and its counter.  The answer
  of the user to the dialog is \<open>answers n\<close> for the dialog number \<open>n\<close>, counted from 0 over
  the run: \<open>True\<close> for OK and \<open>False\<close> for Cancel.
\<close>

definition showSingleAlert ::
  "(nat \<Rightarrow> bool) \<Rightarrow> ThresholdAlert \<Rightarrow> nat \<Rightarrow> nat \<Rightarrow> Escalator \<Rightarrow> Escalator" where
  "showSingleAlert answers alert a alertNumber s =
     (let result = answers (length (shown s));
          s1 = s\<lparr>shown := shown s @ [(alertKey alert, alertNumber)]\<rparr>
      in if \<not> result then
           cancelRepeat a (s1\<lparr>ignoredAlerts := insert (alertKey alert) (ignoredAlerts s1)\<rparr>)
         else if alertNumber = 1 then s1\<lparr>flashBanner := Some alert\<rparr>
         else s1)"

text \<open>The function given to \<^verbatim>\<open>setInterval\<close>.\<close>

definition timerCallback :: "(nat \<Rightarrow> bool) \<Rightarrow> ThresholdAlert \<Rightarrow> nat \<Rightarrow> Escalator \<Rightarrow> Escalator" where
  "timerCallback answers alert a s =
     (if alertKey alert \<in> ignoredAlerts s then cancelRepeat a s
      else
        let s1 = s\<lparr>counters := (counters s)(a := (counters s a)\<lparr>count := count (counters s a) + 1\<rparr>)\<rparr>;
            s2 = showSingleAlert answers alert a (count (counters s1 a)) s1
        in if count (counters s2 a) \<ge> 3 then cancelRepeat a s2 else s2)"

definition setInterval :: "ThresholdAlert \<Rightarrow> nat \<Rightarrow> Escalator \<Rightarrow> Escalator" where
  "setInterval alert a s =
     s\<lparr>timers := timers s @ [(nextTimerId s,
            \<lparr>timerAlert = alert, timerCounter = a, due = now s + repeatInterval\<rparr>)],
       nextTimerId := nextTimerId s + 1,
       counters := (counters s)(a := (counters s a)\<lparr>intervalId := Some (nextTimerId s)\<rparr>)\<rparr>"

definition showThresholdAlert :: "(nat \<Rightarrow> bool) \<Rightarrow> ThresholdAlert \<Rightarrow> Escalator \<Rightarrow> Escalator" where
  "showThresholdAlert answers alert s =
     (if alertKey alert \<in> ignoredAlerts s then s
      else
        let s1 = (case map_of (alertCounters s) (alertKey alert) of
                    Some a \<Rightarrow> s
                  | None \<Rightarrow>
                      s\<lparr>alertCounters := alertCounters s @ [(alertKey alert, nextCounter s)],
                        counters := (counters s)(nextCounter s := \<lparr>count = 0, intervalId = None\<rparr>),
                        nextCounter := nextCounter s + 1\<rparr>);
            a = (case map_of (alertCounters s) (alertKey alert) of
                   Some a \<Rightarrow> a
                 | None \<Rightarrow> nextCounter s);
            s2 = s1\<lparr>counters := (counters s1)(a := (counters s1 a)\<lparr>count := 1\<rparr>)\<rparr>;
            s3 = showSingleAlert answers alert a 1 s2
        in if alertKey alert \<notin> ignoredAlerts s3 then setInterval alert a s3 else s3)"

text \<open>
  \<^verbatim>\<open>clearAllNotifications\<close>: the timer of every counter in the map is cleared, then the
  map, the ignored set, the banner and the two message lists are emptied.
\<close>

fun clearCounterTimers :: "(string \<times> nat) list \<Rightarrow> Escalator \<Rightarrow> Escalator" where
  "clearCounterTimers [] s = s"
| "clearCounterTimers ((k, a) # rest) s =
     clearCounterTimers rest
       (case intervalId (counters s a) of None \<Rightarrow> s | Some i \<Rightarrow> clearInterval i s)"

definition clearAllNotifications :: "Escalator \<Rightarrow> Escalator" where
  "clearAllNotifications s =
     (clearCounterTimers (alertCounters s) s)
       \<lparr>alertCounters := [], ignoredAlerts := {}, flashBanner := None,
        uiAlerts := [], uiWarnings := []\<rparr>"

text \<open>
  Time.  One millisecond passes, and the timers due at the new instant fire in the order
  of their creation, each set to fire again one interval later; a timer cleared by an
  earlier callback of the same instant does not fire.
\<close>

fun fireDue :: "(nat \<Rightarrow> bool) \<Rightarrow> nat list \<Rightarrow> Escalator \<Rightarrow> Escalator" where
  "fireDue answers [] s = s"
| "fireDue answers (i # rest) s =
     fireDue answers rest
       (case map_of (timers s) i of
          None \<Rightarrow> s
        | Some t \<Rightarrow>
            timerCallback answers (timerAlert t) (timerCounter t)
              (s\<lparr>timers := map (\<lambda>(j, u). if j = i then (j, u\<lparr>due := due u + repeatInterval\<rparr>)
                                        else (j, u)) (timers s)\<rparr>))"

definition tick :: "(nat \<Rightarrow> bool) \<Rightarrow> Escalator \<Rightarrow> Escalator" where
  "tick answers s =
     (let s1 = s\<lparr>now := now s + 1\<rparr>
      in fireDue answers (map fst (filter (\<lambda>(i, t). due t = now s1) (timers s1))) s1)"

primrec advance :: "(nat \<Rightarrow> bool) \<Rightarrow> nat \<Rightarrow> Escalator \<Rightarrow> Escalator" where
  "advance answers 0 s = s"
| "advance answers (Suc n) s = tick answers (advance answers n s)"

text \<open>What happens to the escalator, and a run of it.\<close>

datatype event = Deliver ThresholdAlert | Elapse nat | ClearAll

fun step :: "(nat \<Rightarrow> bool) \<Rightarrow> event \<Rightarrow> Escalator \<Rightarrow> Escalator" where
  "step answers (Deliver alert) s = showThresholdAlert answers alert s"
| "step answers (Elapse n) s = advance answers n s"
| "step answers ClearAll s = clearAllNotifications s"

fun run :: "(nat \<Rightarrow> bool) \<Rightarrow> event list \<Rightarrow> Escalator \<Rightarrow> Escalator" where
  "run answers [] s = s"
| "run answers (e # es) s = run answers es (step answers e s)"

text \<open>The state of a freshly mounted component, and the displays of one identity.\<close>

definition initialEscalator :: Escalator where
  "initialEscalator =
     \<lparr>ignoredAlerts = {}, alertCounters = [], counters = (\<lambda>a. \<lparr>count = 0, intervalId = None\<rparr>),
      nextCounter = 0, timers = [], nextTimerId = 1, flashBanner = None,
      uiAlerts = [], uiWarnings = [], now = 0, shown = []\<rparr>"

definition displaysOf :: "string \<Rightarrow> Escalator \<Rightarrow> (string \<times> nat) list" where
  "displaysOf k s = filter (\<lambda>(key, n). key = k) (shown s)"

text \<open>An alert on which the definitions are evaluated.\<close>

definition exampleAlert :: ThresholdAlert where
  "exampleAlert =
     \<lparr>alert_type = Error,
      alert_message = ''Combined .caido files (11 MB) exceed 10MB threshold''\<rparr>"



definition timersOf :: "string \<Rightarrow> Escalator \<Rightarrow> (nat \<times> Timer) list" where
  "timersOf k s = filter (\<lambda>(j, t). alertKey (timerAlert t) = k) (timers s)"



text \<open>The timer \<open>i\<close> set to fire again one interval later, as \<open>fireDue\<close> does it.\<close>

definition reschedule :: "nat \<Rightarrow> (nat \<times> Timer) list \<Rightarrow> (nat \<times> Timer) list" where
  "reschedule i ts =
     map (\<lambda>(j, u). if j = i then (j, u\<lparr>due := due u + repeatInterval\<rparr>) else (j, u)) ts"


section \<open>Properties of the number printing\<close>

lemma unitIndex_floorlog: "0 < n \<Longrightarrow> unitIndex n = floorlog 1024 n - 1"
  by (simp add: unitIndex_def floorlog_def log_def)

lemma unitIndex_rec [code]: "unitIndex n = (if n < 1024 then 0 else Suc (unitIndex (n div 1024)))"
proof (cases "n = 0")
  case True
  then show ?thesis by (simp add: unitIndex_def)
next
  case False
  then have pos: "0 < n" by simp
  show ?thesis
  proof (cases "n < 1024")
    case True
    with pos have "floorlog 1024 n = 1"
      by (subst compute_floorlog) (simp add: floorlog_def)
    with pos True show ?thesis by (simp add: unitIndex_floorlog)
  next
    case False
    then have d: "0 < n div 1024" by (simp add: div_greater_zero_iff)
    have "floorlog 1024 n = floorlog 1024 (n div 1024) + 1"
      using pos by (subst compute_floorlog) simp
    moreover have "0 < floorlog 1024 (n div 1024)"
      using d by (simp add: floorlog_def)
    ultimately show ?thesis
      using pos d False by (simp add: unitIndex_floorlog)
  qed
qed

lemma unitIndex_bounds: "0 < n \<Longrightarrow> 1024 ^ unitIndex n \<le> n \<and> n < 1024 ^ Suc (unitIndex n)"
  using floorlog_bounds [of n 1024] by (simp add: unitIndex_floorlog floorlog_def)

lemma toFixed2_nat: "toFixed2 (of_nat b / 1024 ^ i) = (200 * b + 1024 ^ i) div (2 * 1024 ^ i)"
proof -
  have "of_nat b / (1024::rat) ^ i * 100 + 1 / 2 = of_int (int (200 * b + 1024 ^ i)) / of_int (int (2 * 1024 ^ i))"
    by (simp add: field_simps)
  then have "\<lfloor>of_nat b / (1024::rat) ^ i * 100 + 1 / 2\<rfloor> = int (200 * b + 1024 ^ i) div int (2 * 1024 ^ i)"
    by (simp only: floor_divide_of_int_eq)
  then show ?thesis
    by (simp add: toFixed2_def zdiv_int [symmetric] del: of_nat_mult of_nat_add of_nat_power)
qed

lemma digit_in_digits10: "k < 10 \<Longrightarrow> digits10 ! k \<in> set digits10"
  by (rule nth_mem) (simp add: digits10_def)

lemma showNat_digits: "showNat n \<noteq> [] \<and> set (showNat n) \<subseteq> set digits10"
proof (induction n rule: showNat.induct)
  case (1 n)
  show ?case
  proof (cases "n < 10")
    case True
    then show ?thesis by (subst (1 2) showNat.simps) (simp add: digit_in_digits10)
  next
    case False
    with 1 show ?thesis by (subst (1 2) showNat.simps) (simp add: digit_in_digits10)
  qed
qed

lemma isDigits_showNat: "isDigits (showNat n)"
  using showNat_digits [of n] by (auto simp: isDigits_def list_all_iff)

lemma dot_not_digit: "c \<in> set digits10 \<Longrightarrow> c \<noteq> CHR ''.''"
  by (auto simp: digits10_def)

lemma isNumberText_whole: "isDigits w \<Longrightarrow> isNumberText w"
proof -
  assume a: "isDigits w"
  then have "\<forall>c \<in> set w. c \<noteq> CHR ''.''"
    by (auto simp: isDigits_def list_all_iff dot_not_digit)
  then have tw: "takeWhile (\<lambda>c. c \<noteq> CHR ''.'') w = w"
    and dw: "dropWhile (\<lambda>c. c \<noteq> CHR ''.'') w = []"
    by (simp_all add: takeWhile_eq_all_conv)
  show ?thesis by (simp add: isNumberText_def tw dw a)
qed

lemma isNumberText_frac:
  "\<lbrakk>isDigits w; isDigits f; length f \<le> 2\<rbrakk> \<Longrightarrow> isNumberText (w @ ''.'' @ f)"
proof -
  assume a: "isDigits w" "isDigits f" "length f \<le> 2"
  then have "\<forall>c \<in> set w. c \<noteq> CHR ''.''"
    by (auto simp: isDigits_def list_all_iff dot_not_digit)
  then have tw: "takeWhile (\<lambda>c. c \<noteq> CHR ''.'') (w @ CHR ''.'' # f) = w"
    and dw: "dropWhile (\<lambda>c. c \<noteq> CHR ''.'') (w @ CHR ''.'' # f) = CHR ''.'' # f"
    by (simp_all add: takeWhile_append2 dropWhile_append2)
  show ?thesis by (simp add: isNumberText_def Let_def tw dw a)
qed

lemma isNumberText_showHundredths: "isNumberText (showHundredths n)"
proof -
  have d1: "isDigits [digits10 ! (n mod 100 div 10)]"
    by (simp add: isDigits_def digit_in_digits10)
  have d2: "isDigits [digits10 ! (n mod 100 div 10), digits10 ! (n mod 100 mod 10)]"
    by (simp add: isDigits_def digit_in_digits10)
  show ?thesis
    using isNumberText_whole [OF isDigits_showNat [of "n div 100"]]
      isNumberText_frac [OF isDigits_showNat [of "n div 100"] d1]
      isNumberText_frac [OF isDigits_showNat [of "n div 100"] d2]
    by (simp add: showHundredths_def Let_def)
qed

lemma isNumberText_chars: "isNumberText s \<Longrightarrow> set s \<subseteq> set (digits10 @ ''.'')"
proof -
  assume a: "isNumberText s"
  have split: "s = takeWhile (\<lambda>c. c \<noteq> CHR ''.'') s @ dropWhile (\<lambda>c. c \<noteq> CHR ''.'') s"
    by simp
  show ?thesis
  proof (cases "dropWhile (\<lambda>c. c \<noteq> CHR ''.'') s")
    case Nil
    with a split show ?thesis
      by (auto simp: isNumberText_def isDigits_def list_all_iff Let_def dest: set_takeWhileD)
  next
    case (Cons c r)
    then have "c = CHR ''.''" using hd_dropWhile [of "\<lambda>c. c \<noteq> CHR ''.''" s] by auto
    with a Cons have r: "set r \<subseteq> set digits10" and w: "set (takeWhile (\<lambda>c. c \<noteq> CHR ''.'') s) \<subseteq> set digits10"
      by (auto simp: isNumberText_def isDigits_def list_all_iff Let_def)
    have "set s = set (takeWhile (\<lambda>c. c \<noteq> CHR ''.'') s) \<union> set (c # r)"
      using split Cons by (metis set_append)
    with r w \<open>c = CHR ''.''\<close> show ?thesis by auto
  qed
qed

lemma unitIndex_lt4: "\<lbrakk>0 < n; n < 1024 ^ 4\<rbrakk> \<Longrightarrow> unitIndex n < 4"
proof -
  assume "0 < n" "n < 1024 ^ 4"
  with unitIndex_bounds [of n] have "(1024::nat) ^ unitIndex n < 1024 ^ 4" by simp
  then show ?thesis by (simp only: power_strict_increasing_iff) 
qed

lemma unitIndex_ge4: "1024 ^ 4 \<le> n \<Longrightarrow> 4 \<le> unitIndex n"
proof -
  assume a: "1024 ^ 4 \<le> n"
  then have "0 < n" by (simp add: Suc_le_eq less_le_trans [of 0 "1024 ^ 4"])
  with a unitIndex_bounds [of n] have "(1024::nat) ^ 4 < 1024 ^ Suc (unitIndex n)" by simp
  then have "4 < Suc (unitIndex n)" by (simp only: power_strict_increasing_iff)
  then show ?thesis by simp
qed

lemma unitIndex_small: "n < 1024 \<Longrightarrow> unitIndex n = 0"
  by (subst unitIndex_rec) simp

lemma unitIndex_big: "\<not> n < 1024 \<Longrightarrow> unitIndex n = Suc (unitIndex (n div 1024))"
  by (subst unitIndex_rec) simp

lemma formatBytes_eval:
  "0 < bytes \<Longrightarrow> formatBytes bytes =
     showHundredths ((200 * bytes + 1024 ^ unitIndex bytes) div (2 * 1024 ^ unitIndex bytes))
       @ '' '' @ sizesAt (unitIndex bytes)"
  using toFixed2_nat [of bytes "unitIndex bytes"] by (simp add: formatBytes_def Let_def)

lemma showNat_small: "n < 10 \<Longrightarrow> showNat n = [digits10 ! n]"
  by (simp add: showNat.simps)

lemma showNat_big: "\<not> n < 10 \<Longrightarrow> showNat n = showNat (n div 10) @ [digits10 ! (n mod 10)]"
  by (subst showNat.simps) simp

lemmas format_eval = formatBytes_eval unitIndex_small unitIndex_big showHundredths_def
  sizesAt_def sizes_def showNat_small showNat_big digits10_def Let_def

lemma B_in_units: "u \<in> set sizes \<Longrightarrow> CHR ''B'' \<in> set u"
  by (auto simp: sizes_def)

lemma no_B_in_number: "isNumberText s \<Longrightarrow> CHR ''B'' \<notin> set s"
  using isNumberText_chars [of s] by (auto simp: digits10_def)

text \<open>
  Claim C10.  \<open>formatBytes\<close> returns a number followed by one of the four units exactly
  for byte counts below \<open>1024 ^ 4\<close>.  From \<open>1024 ^ 4\<close> on the unit index is at least 4,
  the lookup in \<open>sizes\<close> is out of bounds, the text after the number is the word
  \<open>undefined\<close>, and no unit occurs anywhere in the returned string.
\<close>

theorem C10_formatBytes_unit_range:
  "(bytes < 1024 ^ 4 \<longrightarrow>
      (\<exists>num u. formatBytes bytes = num @ '' '' @ u \<and> isNumberText num \<and> u \<in> set sizes)) \<and>
   (1024 ^ 4 \<le> bytes \<longrightarrow>
      4 \<le> unitIndex bytes \<and> \<not> unitIndex bytes < length sizes \<and>
      (\<exists>num. formatBytes bytes = num @ '' undefined'' \<and> isNumberText num) \<and>
      (\<forall>u \<in> set sizes. \<not> sublist u (formatBytes bytes)))"
proof (intro conjI impI)
  assume lt: "bytes < 1024 ^ 4"
  show "\<exists>num u. formatBytes bytes = num @ '' '' @ u \<and> isNumberText num \<and> u \<in> set sizes"
  proof (cases "bytes = 0")
    case True
    have "formatBytes 0 = ''0'' @ '' '' @ ''B''" by (simp add: formatBytes_def)
    moreover have "isNumberText ''0''"
      by (simp add: isNumberText_def isDigits_def digits10_def)
    moreover have "''B'' \<in> set sizes" by (simp add: sizes_def)
    ultimately show ?thesis using True by blast
  next
    case False
    then have pos: "0 < bytes" by simp
    from pos lt have i: "unitIndex bytes < 4" by (rule unitIndex_lt4)
    then have "unitIndex bytes < length sizes" by (simp add: sizes_def)
    then have "sizesAt (unitIndex bytes) \<in> set sizes"
      by (simp add: sizesAt_def)
    with formatBytes_eval [OF pos] isNumberText_showHundredths show ?thesis by blast
  qed
next
  assume ge: "1024 ^ 4 \<le> bytes"
  then show i: "4 \<le> unitIndex bytes" by (rule unitIndex_ge4)
  then show out: "\<not> unitIndex bytes < length sizes" by (simp add: sizes_def)
  from ge have pos: "0 < bytes" by (simp add: Suc_le_eq less_le_trans [of 0 "1024 ^ 4"])
  let ?num = "showHundredths ((200 * bytes + 1024 ^ unitIndex bytes) div (2 * 1024 ^ unitIndex bytes))"
  have eq: "formatBytes bytes = ?num @ '' undefined''"
    using formatBytes_eval [OF pos] out by (simp add: sizesAt_def)
  have num: "isNumberText ?num" by (rule isNumberText_showHundredths)
  from eq num show "\<exists>num. formatBytes bytes = num @ '' undefined'' \<and> isNumberText num"
    by blast
  have "CHR ''B'' \<notin> set (formatBytes bytes)"
    using no_B_in_number [OF num] by (simp add: eq)
  then show "\<forall>u \<in> set sizes. \<not> sublist u (formatBytes bytes)"
    using B_in_units set_mono_sublist by fastforce
qed

theorem C10_formatBytes_unit_range_witness:
  "formatBytes 1536 = ''1.5 KB'' \<and> ''KB'' \<in> set sizes \<and>
   formatBytes 1099511627776 = ''1 undefined'' \<and> unitIndex 1099511627776 = 4 \<and>
   \<not> sublist ''GB'' (formatBytes 1099511627776)"
  using C10_formatBytes_unit_range [of 1536] C10_formatBytes_unit_range [of 1099511627776]
  by (simp add: format_eval)

section \<open>Properties of the threshold evaluation\<close>

lemma warnLoop_find:
  "warnLoop mk sz tb ps st =
     (case find (meetsBand sz tb) ps of None \<Rightarrow> st | Some p \<Rightarrow> pushWarning (mk p) st)"
  by (induction ps) (simp_all add: meetsBand_def)

lemma warnLoop_first:
  "\<lbrakk>\<forall>q \<in> set pre. \<not> meetsBand sz tb q; meetsBand sz tb p\<rbrakk>
   \<Longrightarrow> warnLoop mk sz tb (pre @ p # post) st = pushWarning (mk p) st"
  by (induction pre) (simp_all add: meetsBand_def)

lemma warnLoop_none:
  "\<forall>q \<in> set ps. \<not> meetsBand sz tb q \<Longrightarrow> warnLoop mk sz tb ps st = st"
  by (induction ps) (simp_all add: meetsBand_def)

lemma warnLoop_alerts [simp]: "alerts (warnLoop mk sz tb ps st) = alerts st"
  by (induction ps) (simp_all add: pushWarning_def)

lemma warnLoop_warnings_le:
  "length (warnings (warnLoop mk sz tb ps st)) \<le> Suc (length (warnings st))"
  by (induction ps) (simp_all add: pushWarning_def)

text \<open>Each step only appends: its effect on any state is its effect on the empty one.\<close>

lemma warnLoop_append:
  "warnLoop mk sz tb ps st = appendEval st (warnLoop mk sz tb ps emptyEval)"
  by (induction ps) (simp_all add: appendEval_def pushWarning_def emptyEval_def)

lemma checkFile_append:
  "checkFile f mb en ps st = appendEval st (checkFile f mb en ps emptyEval)"
  unfolding checkFile_def
  by (simp add: appendEval_def pushAlert_def emptyEval_def warnLoop_append [of _ _ _ _ st, unfolded appendEval_def emptyEval_def])

lemma checkFiles_append:
  "checkFiles fs mb en ps st =
     appendEval st (foldl appendEval emptyEval (map (\<lambda>f. checkFile f mb en ps emptyEval) fs))"
proof (induction fs arbitrary: st)
  case Nil
  show ?case by (simp add: appendEval_def emptyEval_def)
next
  case (Cons f fs)
  have assoc: "\<And>a b c. appendEval (appendEval a b) c = appendEval a (appendEval b c)"
    by (simp add: appendEval_def)
  have unit: "\<And>a. appendEval emptyEval a = a"
    by (simp add: appendEval_def emptyEval_def)
  have fold_shift: "\<And>a ds. foldl appendEval a ds = appendEval a (foldl appendEval emptyEval ds)"
  proof -
    fix a :: EvalState and ds
    show "foldl appendEval a ds = appendEval a (foldl appendEval emptyEval ds)"
    proof (induction ds arbitrary: a rule: rev_induct)
      case Nil
      show ?case by (simp add: appendEval_def emptyEval_def)
    next
      case (snoc d ds)
      show ?case by (simp add: snoc.IH [of a] assoc)
    qed
  qed
  show ?case
    apply (simp add: Cons.IH [of "checkFile f mb en ps st"])
    apply (subst checkFile_append)
    apply (simp add: unit assoc)
    apply (subst (2) fold_shift)
    apply simp
    done
qed

lemma checkFile_caido: "endsWith (name f) ''.caido'' \<Longrightarrow> checkFile f mb en ps st = st"
  by (simp add: checkFile_def)

lemma checkCombined_empty: "caidoFiles di = [] \<Longrightarrow> checkCombined di mb en ps st = st"
  by (simp add: checkCombined_def)

lemma checkFile_length:
  "length (alerts (checkFile f mb en ps st)) + length (warnings (checkFile f mb en ps st))
     \<le> Suc (length (alerts st) + length (warnings st))"
  using warnLoop_warnings_le [of "fileWarningMessage f mb" "size_bytes f" "thresholdBytes mb" ps st]
  by (simp add: checkFile_def pushAlert_def)

lemma foldl_appendEval_alerts:
  "alerts (foldl appendEval a ds) = alerts a @ concat (map alerts ds)"
  by (induction ds arbitrary: a) (simp_all add: appendEval_def)

lemma foldl_appendEval_warnings:
  "warnings (foldl appendEval a ds) = warnings a @ concat (map warnings ds)"
  by (induction ds arbitrary: a) (simp_all add: appendEval_def)

lemma foldl_appendEval_sent:
  "sent (foldl appendEval a ds) = sent a @ concat (map sent ds)"
  by (induction ds arbitrary: a) (simp_all add: appendEval_def)

lemma concat_map_skip:
  "\<forall>x \<in> set xs. \<not> P x \<longrightarrow> g x = [] \<Longrightarrow> concat (map g xs) = concat (map g (filter P xs))"
  by (induction xs) auto

lemma checkFiles_alerts:
  "alerts (checkFiles fs mb en ps st) =
     alerts st @ concat (map (\<lambda>f. alerts (checkFile f mb en ps emptyEval))
       (filter (\<lambda>f. \<not> isCaido f) fs))"
proof -
  have "concat (map (\<lambda>f. alerts (checkFile f mb en ps emptyEval)) fs) =
        concat (map (\<lambda>f. alerts (checkFile f mb en ps emptyEval)) (filter (\<lambda>f. \<not> isCaido f) fs))"
    by (rule concat_map_skip) (simp add: isCaido_def checkFile_caido emptyEval_def)
  then show ?thesis
    by (subst checkFiles_append)
      (simp add: appendEval_def foldl_appendEval_alerts emptyEval_def comp_def)
qed

lemma checkFiles_warnings:
  "warnings (checkFiles fs mb en ps st) =
     warnings st @ concat (map (\<lambda>f. warnings (checkFile f mb en ps emptyEval))
       (filter (\<lambda>f. \<not> isCaido f) fs))"
proof -
  have "concat (map (\<lambda>f. warnings (checkFile f mb en ps emptyEval)) fs) =
        concat (map (\<lambda>f. warnings (checkFile f mb en ps emptyEval)) (filter (\<lambda>f. \<not> isCaido f) fs))"
    by (rule concat_map_skip) (simp add: isCaido_def checkFile_caido emptyEval_def)
  then show ?thesis
    by (subst checkFiles_append)
      (simp add: appendEval_def foldl_appendEval_warnings emptyEval_def comp_def)
qed


lemmas eval_defs = checkFileSizeThresholds_def checkCombined_def checkFile_def
  thresholdBytes_def warningThreshold_def endsWith_def isCaido_def pushAlert_def pushWarning_def
  emptyEval_def combinedAlertMessage_def combinedWarningMessage_def fileAlertMessage_def
  fileWarningMessage_def showNat_small showNat_big digits10_def defaultWarningPercentages_def


lemma checkCombined_warnings_le:
  "length (warnings (checkCombined di mb en ps st)) \<le> Suc (length (warnings st))"
  using warnLoop_warnings_le
    [of "combinedWarningMessage di mb" "caidoTotalSize di" "thresholdBytes mb" ps st]
  by (simp add: checkCombined_def pushAlert_def)

lemma checkFile_warnings_le:
  "length (warnings (checkFile f mb en ps st)) \<le> Suc (length (warnings st))"
  using warnLoop_warnings_le
    [of "fileWarningMessage f mb" "size_bytes f" "thresholdBytes mb" ps st]
  by (simp add: checkFile_def pushAlert_def)

lemma length_concat_le:
  "\<forall>x \<in> set xs. length (g x) \<le> 1 \<Longrightarrow> length (concat (map g xs)) \<le> length xs"
  by (induction xs) auto

lemma checkFileSizeThresholds_warnings_le:
  "length (warnings (checkFileSizeThresholds di mb en (Some ps)))
     \<le> (if caidoFiles di = [] then 0 else 1) + length (filter (\<lambda>f. \<not> isCaido f) (files di))"
proof -
  have g: "length (warnings (checkCombined di mb en ps emptyEval))
             \<le> (if caidoFiles di = [] then 0 else 1)"
    using checkCombined_warnings_le [of di mb en ps emptyEval]
    by (simp add: checkCombined_empty) (simp add: emptyEval_def)
  have "\<forall>f \<in> set (filter (\<lambda>f. \<not> isCaido f) (files di)).
          length (warnings (checkFile f mb en ps emptyEval)) \<le> 1"
    using checkFile_warnings_le [of _ mb en ps emptyEval] by (simp add: emptyEval_def)
  then have "length (concat (map (\<lambda>f. warnings (checkFile f mb en ps emptyEval))
               (filter (\<lambda>f. \<not> isCaido f) (files di))))
             \<le> length (filter (\<lambda>f. \<not> isCaido f) (files di))"
    by (rule length_concat_le)
  with g show ?thesis
    by (simp add: checkFileSizeThresholds_def checkFiles_warnings)
qed

text \<open>
  Claim C1, at its own input.  With warnings enabled and the percentages given as
  \<open>[75, 90]\<close>, an entity of 24117248 bytes is at exactly 92 percent of a threshold of
  25 MB.  The evaluation returns one warning for it, and that warning is the one of the
  75 percent band, which is listed first: the loop stops at the first band the size
  meets.  This holds for an ungrouped file and for the combined total alike.
\<close>

theorem C1_file_at_92_percent_gets_75_warning:
  "100 * 24117248 = 92 * thresholdBytes 25 \<and>
   formatBytes 24117248 = ''23 MB'' \<and>
   checkFileSizeThresholds
     \<lparr>files = [\<lparr>name = ''big.log'', size_bytes = 24117248, sizeFormatted = ''23 MB''\<rparr>],
      totalSize = 24117248, totalSizeFormatted = ''23 MB'', scanPath = ''/w'',
      caidoFiles = [], caidoTotalSize = 0, caidoTotalSizeFormatted = ''0 B''\<rparr>
     25 True (Some [75, 90]) =
   \<lparr>alerts = [],
    warnings = [''File '' @ [CHR 0x22] @ ''big.log'' @ [CHR 0x22] @ '' (23 MB) is at 75% of 25MB threshold''],
    sent = [\<lparr>alert_type = Warning, alert_message =
      ''File '' @ [CHR 0x22] @ ''big.log'' @ [CHR 0x22] @ '' (23 MB) is at 75% of 25MB threshold''\<rparr>]\<rparr> \<and>
   checkFileSizeThresholds
     \<lparr>files = [\<lparr>name = ''p.caido'', size_bytes = 24117248, sizeFormatted = ''23 MB''\<rparr>],
      totalSize = 24117248, totalSizeFormatted = ''23 MB'', scanPath = ''/w'',
      caidoFiles = [\<lparr>name = ''p.caido'', size_bytes = 24117248, sizeFormatted = ''23 MB''\<rparr>],
      caidoTotalSize = 24117248, caidoTotalSizeFormatted = ''23 MB''\<rparr>
     25 True (Some [75, 90]) =
   \<lparr>alerts = [],
    warnings = [''Combined .caido files (23 MB) are at 75% of 25MB threshold''],
    sent = [\<lparr>alert_type = Warning, alert_message =
      ''Combined .caido files (23 MB) are at 75% of 25MB threshold''\<rparr>]\<rparr>"
  by (simp add: eval_defs format_eval)

text \<open>
  What \<open>checkFileSizeThresholds\<close> returns, in closed form: the alerts and the
  warnings of an evaluation as functions of the inventory.
\<close>

lemma concat_map_if: "concat (map (\<lambda>x. if P x then [g x] else []) xs) = map g (filter P xs)"
  by (induction xs) simp_all

lemma concat_map_if_filter:
  "concat (map (\<lambda>x. if P x then h x else []) xs) = concat (map h (filter P xs))"
  by (induction xs) simp_all

lemma checkFile_alerts_empty:
  "alerts (checkFile f mb en ps emptyEval) =
     (if \<not> isCaido f \<and> thresholdBytes mb \<le> size_bytes f then [fileAlertMessage f mb] else [])"
  by (simp add: checkFile_def isCaido_def pushAlert_def emptyEval_def)

lemma checkFile_warnings_empty:
  "warnings (checkFile f mb en ps emptyEval) =
     (if en \<and> \<not> isCaido f \<and> size_bytes f < thresholdBytes mb
      then (case find (meetsBand (size_bytes f) (thresholdBytes mb)) ps of
              None \<Rightarrow> [] | Some p \<Rightarrow> [fileWarningMessage f mb p])
      else [])"
  by (simp add: checkFile_def isCaido_def pushAlert_def pushWarning_def emptyEval_def
      warnLoop_find split: option.splits)

lemma checkCombined_alerts_empty:
  "alerts (checkCombined di mb en ps emptyEval) =
     (if caidoFiles di \<noteq> [] \<and> thresholdBytes mb \<le> caidoTotalSize di
      then [combinedAlertMessage di mb] else [])"
  by (simp add: checkCombined_def pushAlert_def emptyEval_def)

lemma checkCombined_warnings_empty:
  "warnings (checkCombined di mb en ps emptyEval) =
     (if en \<and> caidoFiles di \<noteq> [] \<and> caidoTotalSize di < thresholdBytes mb
      then (case find (meetsBand (caidoTotalSize di) (thresholdBytes mb)) ps of
              None \<Rightarrow> [] | Some p \<Rightarrow> [combinedWarningMessage di mb p])
      else [])"
  by (simp add: checkCombined_def pushAlert_def pushWarning_def emptyEval_def
      warnLoop_find split: option.splits)

lemma checkFileSizeThresholds_alerts:
  "alerts (checkFileSizeThresholds di mb en (Some ps)) =
     (if caidoFiles di \<noteq> [] \<and> thresholdBytes mb \<le> caidoTotalSize di
      then [combinedAlertMessage di mb] else []) @
     map (\<lambda>f. fileAlertMessage f mb)
       (filter (\<lambda>f. \<not> isCaido f \<and> thresholdBytes mb \<le> size_bytes f) (files di))"
proof -
  have "concat (map (\<lambda>f. alerts (checkFile f mb en ps emptyEval))
          (filter (\<lambda>f. \<not> isCaido f) (files di))) =
        map (\<lambda>f. fileAlertMessage f mb)
          (filter (\<lambda>f. \<not> isCaido f \<and> thresholdBytes mb \<le> size_bytes f) (files di))"
    by (simp add: checkFile_alerts_empty concat_map_if [of "\<lambda>f. \<not> isCaido f \<and> thresholdBytes mb \<le> size_bytes f"] conj_commute cong: conj_cong)
  then show ?thesis
    by (simp add: checkFileSizeThresholds_def checkFiles_alerts checkCombined_alerts_empty)
qed

lemma concat_filter_if:
  "concat (map (\<lambda>x. if Q x then h x else []) (filter P xs)) =
   concat (map h (filter (\<lambda>x. Q x \<and> P x) xs))"
  by (induction xs) simp_all

lemma file_warnings_concat:
  "concat (map (\<lambda>f. warnings (checkFile f mb en ps emptyEval))
          (filter (\<lambda>f. \<not> isCaido f) fs)) =
   concat (map (\<lambda>f. case find (meetsBand (size_bytes f) (thresholdBytes mb)) ps of
                         None \<Rightarrow> [] | Some p \<Rightarrow> [fileWarningMessage f mb p])
          (filter (\<lambda>f. en \<and> \<not> isCaido f \<and> size_bytes f < thresholdBytes mb) fs))"
proof -
  have "(\<lambda>f. (en \<and> \<not> isCaido f \<and> size_bytes f < thresholdBytes mb) \<and> \<not> isCaido f) =
        (\<lambda>f. en \<and> \<not> isCaido f \<and> size_bytes f < thresholdBytes mb)"
    by auto
  then show ?thesis
    by (simp only: checkFile_warnings_empty concat_filter_if)
qed

lemma checkFileSizeThresholds_warnings:
  "warnings (checkFileSizeThresholds di mb en (Some ps)) =
     (if en \<and> caidoFiles di \<noteq> [] \<and> caidoTotalSize di < thresholdBytes mb
      then (case find (meetsBand (caidoTotalSize di) (thresholdBytes mb)) ps of
              None \<Rightarrow> [] | Some p \<Rightarrow> [combinedWarningMessage di mb p])
      else []) @
     concat (map (\<lambda>f. case find (meetsBand (size_bytes f) (thresholdBytes mb)) ps of
                         None \<Rightarrow> [] | Some p \<Rightarrow> [fileWarningMessage f mb p])
       (filter (\<lambda>f. en \<and> \<not> isCaido f \<and> size_bytes f < thresholdBytes mb) (files di)))"
  by (simp add: checkFileSizeThresholds_def checkFiles_warnings checkCombined_warnings_empty
      file_warnings_concat)

lemma checkFileSizeThresholds_default:
  "checkFileSizeThresholds di mb en None = checkFileSizeThresholds di mb en (Some [75, 90])"
  by (simp add: checkFileSizeThresholds_def defaultWarningPercentages_def)

lemma find_first:
  "\<lbrakk>\<forall>q \<in> set pre. \<not> P q; P p\<rbrakk> \<Longrightarrow> find P (pre @ p # post) = Some p"
  by (induction pre) simp_all

lemma single_file_alert:
  "\<lbrakk>files di = [file]; caidoFiles di = []; \<not> isCaido file;
    size_bytes file = thresholdBytes mb\<rbrakk> \<Longrightarrow>
     checkFileSizeThresholds di mb en (Some ps) = pushAlert (fileAlertMessage file mb) emptyEval"
  by (simp add: checkFileSizeThresholds_def checkCombined_def checkFile_def isCaido_def)

lemma checkFiles_all_caido: "list_all isCaido fs \<Longrightarrow> checkFiles fs mb en ps st = st"
  by (induction fs arbitrary: st) (simp_all add: checkFile_caido isCaido_def)

lemma group_alert:
  "\<lbrakk>caidoFiles di \<noteq> []; list_all isCaido (files di);
    caidoTotalSize di = thresholdBytes mb\<rbrakk> \<Longrightarrow>
     checkFileSizeThresholds di mb en (Some ps) = pushAlert (combinedAlertMessage di mb) emptyEval"
  by (simp add: checkFileSizeThresholds_def checkCombined_def checkFiles_all_caido)

lemma warnings_without_threshold_files:
  "warnings (checkFileSizeThresholds di mb en (Some ps)) =
   warnings (checkFileSizeThresholds
     (di\<lparr>files := filter (\<lambda>f. size_bytes f \<noteq> thresholdBytes mb) (files di)\<rparr>) mb en (Some ps))"
proof -
  have f: "filter (\<lambda>f. en \<and> \<not> isCaido f \<and> size_bytes f < thresholdBytes mb)
             (filter (\<lambda>f. size_bytes f \<noteq> thresholdBytes mb) fs) =
           filter (\<lambda>f. en \<and> \<not> isCaido f \<and> size_bytes f < thresholdBytes mb) fs" for fs
    by (induction fs) auto
  show ?thesis
    unfolding checkFileSizeThresholds_warnings
    by (simp add: combinedWarningMessage_def f cong: option.case_cong del: filter_filter)
qed

text \<open>
  Claim C2.  The threshold in bytes is the megabyte input times 1024 times 1024, a band
  is that threshold times the percentage over 100, and both comparisons are inclusive.
  The alerts returned by \<open>checkFileSizeThresholds\<close> are the combined alert when
  the grouped total is at least the threshold, followed by the alert of every ungrouped
  file whose size is at least the threshold; the warnings returned come only from
  entities strictly below the threshold, each tested with the inclusive band comparison.
  So an ungrouped file of exactly the threshold size has its alert returned, a grouped
  total of exactly the threshold size has the combined alert returned first, removing
  the files of exactly the threshold size changes no warning, and an inventory holding
  one entity of exactly the threshold size returns that one alert and no warning.
\<close>

theorem C2_exact_bands_and_inclusive_boundaries:
  "thresholdBytes mb = mb * 1024 * 1024 \<and>
   meetsBand sz (thresholdBytes mb) p =
     (of_nat (mb * 1024 * 1024) * of_nat p / 100 \<le> (of_nat sz :: rat)) \<and>
   alerts (checkFileSizeThresholds di mb en (Some ps)) =
     (if caidoFiles di \<noteq> [] \<and> thresholdBytes mb \<le> caidoTotalSize di
      then [combinedAlertMessage di mb] else []) @
     map (\<lambda>f. fileAlertMessage f mb)
       (filter (\<lambda>f. \<not> isCaido f \<and> thresholdBytes mb \<le> size_bytes f) (files di)) \<and>
   warnings (checkFileSizeThresholds di mb en (Some ps)) =
     (if en \<and> caidoFiles di \<noteq> [] \<and> caidoTotalSize di < thresholdBytes mb
      then (case find (meetsBand (caidoTotalSize di) (thresholdBytes mb)) ps of
              None \<Rightarrow> [] | Some p \<Rightarrow> [combinedWarningMessage di mb p])
      else []) @
     concat (map (\<lambda>f. case find (meetsBand (size_bytes f) (thresholdBytes mb)) ps of
                         None \<Rightarrow> [] | Some p \<Rightarrow> [fileWarningMessage f mb p])
       (filter (\<lambda>f. en \<and> \<not> isCaido f \<and> size_bytes f < thresholdBytes mb) (files di))) \<and>
   checkFileSizeThresholds di mb en None = checkFileSizeThresholds di mb en (Some [75, 90]) \<and>
   (file \<in> set (files di) \<and> \<not> isCaido file \<and> size_bytes file = thresholdBytes mb \<longrightarrow>
      fileAlertMessage file mb \<in> set (alerts (checkFileSizeThresholds di mb en (Some ps)))) \<and>
   (caidoFiles di \<noteq> [] \<and> caidoTotalSize di = thresholdBytes mb \<longrightarrow>
      take 1 (alerts (checkFileSizeThresholds di mb en (Some ps))) = [combinedAlertMessage di mb]) \<and>
   warnings (checkFileSizeThresholds di mb en (Some ps)) =
     warnings (checkFileSizeThresholds
       (di\<lparr>files := filter (\<lambda>f. size_bytes f \<noteq> thresholdBytes mb) (files di)\<rparr>) mb en (Some ps)) \<and>
   (files di = [file] \<and> caidoFiles di = [] \<and> \<not> isCaido file \<and>
    size_bytes file = thresholdBytes mb \<longrightarrow>
      checkFileSizeThresholds di mb en (Some ps) =
        \<lparr>alerts = [fileAlertMessage file mb], warnings = [],
         sent = [\<lparr>alert_type = Error, alert_message = fileAlertMessage file mb\<rparr>]\<rparr>) \<and>
   (caidoFiles di \<noteq> [] \<and> list_all isCaido (files di) \<and>
    caidoTotalSize di = thresholdBytes mb \<longrightarrow>
      checkFileSizeThresholds di mb en (Some ps) =
        \<lparr>alerts = [combinedAlertMessage di mb], warnings = [],
         sent = [\<lparr>alert_type = Error, alert_message = combinedAlertMessage di mb\<rparr>]\<rparr>)"
proof (intro conjI impI)
  show "thresholdBytes mb = mb * 1024 * 1024" by (simp add: thresholdBytes_def)
  show "meetsBand sz (thresholdBytes mb) p =
     (of_nat (mb * 1024 * 1024) * of_nat p / 100 \<le> (of_nat sz :: rat))"
    by (simp add: meetsBand_def warningThreshold_def thresholdBytes_def)
  show "checkFileSizeThresholds di mb en None = checkFileSizeThresholds di mb en (Some [75, 90])"
    by (rule checkFileSizeThresholds_default)
  show "warnings (checkFileSizeThresholds di mb en (Some ps)) =
     warnings (checkFileSizeThresholds
       (di\<lparr>files := filter (\<lambda>f. size_bytes f \<noteq> thresholdBytes mb) (files di)\<rparr>) mb en (Some ps))"
    by (rule warnings_without_threshold_files)
next
  assume "file \<in> set (files di) \<and> \<not> isCaido file \<and> size_bytes file = thresholdBytes mb"
  then show "fileAlertMessage file mb \<in> set (alerts (checkFileSizeThresholds di mb en (Some ps)))"
    by (auto simp: checkFileSizeThresholds_alerts)
next
  assume "caidoFiles di \<noteq> [] \<and> caidoTotalSize di = thresholdBytes mb"
  then show "take 1 (alerts (checkFileSizeThresholds di mb en (Some ps))) = [combinedAlertMessage di mb]"
    by (simp add: checkFileSizeThresholds_alerts)
next
  assume "files di = [file] \<and> caidoFiles di = [] \<and> \<not> isCaido file \<and>
    size_bytes file = thresholdBytes mb"
  then show "checkFileSizeThresholds di mb en (Some ps) =
        \<lparr>alerts = [fileAlertMessage file mb], warnings = [],
         sent = [\<lparr>alert_type = Error, alert_message = fileAlertMessage file mb\<rparr>]\<rparr>"
    by (simp add: single_file_alert pushAlert_def emptyEval_def)
next
  assume "caidoFiles di \<noteq> [] \<and> list_all isCaido (files di) \<and>
    caidoTotalSize di = thresholdBytes mb"
  then show "checkFileSizeThresholds di mb en (Some ps) =
        \<lparr>alerts = [combinedAlertMessage di mb], warnings = [],
         sent = [\<lparr>alert_type = Error, alert_message = combinedAlertMessage di mb\<rparr>]\<rparr>"
    by (simp add: group_alert pushAlert_def emptyEval_def)
qed (rule checkFileSizeThresholds_alerts checkFileSizeThresholds_warnings)+

theorem C2_exact_bands_and_inclusive_boundaries_witness:
  "thresholdBytes 10 = 10485760 \<and> meetsBand 7864320 (thresholdBytes 10) 75 \<and>
   checkFileSizeThresholds
     \<lparr>files = [\<lparr>name = ''dump.log'', size_bytes = 10485760, sizeFormatted = ''10 MB''\<rparr>],
      totalSize = 10485760, totalSizeFormatted = ''10 MB'', scanPath = ''/w'',
      caidoFiles = [], caidoTotalSize = 0, caidoTotalSizeFormatted = ''0 B''\<rparr>
     10 True (Some [75, 90]) =
   \<lparr>alerts = [''File '' @ [CHR 0x22] @ ''dump.log'' @ [CHR 0x22] @ '' (10 MB) exceeds 10MB threshold''],
    warnings = [],
    sent = [\<lparr>alert_type = Error, alert_message =
      ''File '' @ [CHR 0x22] @ ''dump.log'' @ [CHR 0x22] @ '' (10 MB) exceeds 10MB threshold''\<rparr>]\<rparr> \<and>
   checkFileSizeThresholds
     \<lparr>files = [\<lparr>name = ''p.caido'', size_bytes = 10485760, sizeFormatted = ''10 MB''\<rparr>],
      totalSize = 10485760, totalSizeFormatted = ''10 MB'', scanPath = ''/w'',
      caidoFiles = [\<lparr>name = ''p.caido'', size_bytes = 10485760, sizeFormatted = ''10 MB''\<rparr>],
      caidoTotalSize = 10485760, caidoTotalSizeFormatted = ''10 MB''\<rparr>
     10 True None =
   \<lparr>alerts = [''Combined .caido files (10 MB) exceed 10MB threshold''],
    warnings = [],
    sent = [\<lparr>alert_type = Error, alert_message =
      ''Combined .caido files (10 MB) exceed 10MB threshold''\<rparr>]\<rparr>"
  using C2_exact_bands_and_inclusive_boundaries
    [of 10 7864320 75
       "\<lparr>files = [\<lparr>name = ''dump.log'', size_bytes = 10485760, sizeFormatted = ''10 MB''\<rparr>],
      totalSize = 10485760, totalSizeFormatted = ''10 MB'', scanPath = ''/w'',
      caidoFiles = [], caidoTotalSize = 0, caidoTotalSizeFormatted = ''0 B''\<rparr>"
       True "[75, 90]"
       "\<lparr>name = ''dump.log'', size_bytes = 10485760, sizeFormatted = ''10 MB''\<rparr>"]
    C2_exact_bands_and_inclusive_boundaries
    [of 10 7864320 75
       "\<lparr>files = [\<lparr>name = ''p.caido'', size_bytes = 10485760, sizeFormatted = ''10 MB''\<rparr>],
      totalSize = 10485760, totalSizeFormatted = ''10 MB'', scanPath = ''/w'',
      caidoFiles = [\<lparr>name = ''p.caido'', size_bytes = 10485760, sizeFormatted = ''10 MB''\<rparr>],
      caidoTotalSize = 10485760, caidoTotalSizeFormatted = ''10 MB''\<rparr>"
       True "[75, 90]"
       "\<lparr>name = ''p.caido'', size_bytes = 10485760, sizeFormatted = ''10 MB''\<rparr>"]
  by (simp add: eval_defs meetsBand_def)

text \<open>
  Evaluations of inventories with an entity below the threshold.
\<close>

lemma single_file_warning:
  "\<lbrakk>files di = [file]; caidoFiles di = []; \<not> isCaido file;
    size_bytes file < thresholdBytes mb;
    \<forall>q \<in> set pre. \<not> meetsBand (size_bytes file) (thresholdBytes mb) q;
    meetsBand (size_bytes file) (thresholdBytes mb) p\<rbrakk> \<Longrightarrow>
     checkFileSizeThresholds di mb True (Some (pre @ p # post)) =
       pushWarning (fileWarningMessage file mb p) emptyEval"
  by (simp add: checkFileSizeThresholds_def checkCombined_def checkFile_def isCaido_def
      warnLoop_first)

lemma group_warning:
  "\<lbrakk>caidoFiles di \<noteq> []; list_all isCaido (files di);
    caidoTotalSize di < thresholdBytes mb;
    \<forall>q \<in> set pre. \<not> meetsBand (caidoTotalSize di) (thresholdBytes mb) q;
    meetsBand (caidoTotalSize di) (thresholdBytes mb) p\<rbrakk> \<Longrightarrow>
     checkFileSizeThresholds di mb True (Some (pre @ p # post)) =
       pushWarning (combinedWarningMessage di mb p) emptyEval"
  by (simp add: checkFileSizeThresholds_def checkCombined_def checkFiles_all_caido
      warnLoop_first)

lemma single_file_quiet:
  "\<lbrakk>files di = [file]; caidoFiles di = []; size_bytes file < thresholdBytes mb;
    \<forall>q \<in> set ps. \<not> meetsBand (size_bytes file) (thresholdBytes mb) q\<rbrakk> \<Longrightarrow>
     checkFileSizeThresholds di mb en (Some ps) = emptyEval"
  by (simp add: checkFileSizeThresholds_def checkCombined_def checkFile_def warnLoop_none)

lemma concat_map_filter_member:
  "\<lbrakk>x \<in> set xs; P x; y \<in> set (h x)\<rbrakk> \<Longrightarrow> y \<in> set (ys @ concat (map h (filter P xs)))"
  by (induction xs) auto

lemma file_warning_member:
  assumes "file \<in> set (files di)" "\<not> isCaido file" "size_bytes file < thresholdBytes mb"
    "\<forall>q \<in> set pre. \<not> meetsBand (size_bytes file) (thresholdBytes mb) q"
    "meetsBand (size_bytes file) (thresholdBytes mb) p"
  shows "fileWarningMessage file mb p \<in>
           set (warnings (checkFileSizeThresholds di mb True (Some (pre @ p # post))))"
proof -
  have f: "find (meetsBand (size_bytes file) (thresholdBytes mb)) (pre @ p # post) = Some p"
    by (rule find_first [OF assms(4) assms(5)])
  have a: "True \<and> \<not> isCaido file \<and> size_bytes file < thresholdBytes mb"
    using assms(2,3) by simp
  have b: "fileWarningMessage file mb p \<in>
            set (case find (meetsBand (size_bytes file) (thresholdBytes mb)) (pre @ p # post) of
                   None \<Rightarrow> [] | Some q \<Rightarrow> [fileWarningMessage file mb q])"
    by (simp add: f)
  show ?thesis
    apply (subst checkFileSizeThresholds_warnings)
    apply (rule concat_map_filter_member [OF assms(1)])
     apply (rule a)
    apply (rule b)
    done
qed

lemma group_warning_first:
  assumes "caidoFiles di \<noteq> []" "caidoTotalSize di < thresholdBytes mb"
    "\<forall>q \<in> set pre. \<not> meetsBand (caidoTotalSize di) (thresholdBytes mb) q"
    "meetsBand (caidoTotalSize di) (thresholdBytes mb) p"
  shows "take 1 (warnings (checkFileSizeThresholds di mb True (Some (pre @ p # post)))) =
           [combinedWarningMessage di mb p]"
proof -
  have "find (meetsBand (caidoTotalSize di) (thresholdBytes mb)) (pre @ p # post) = Some p"
    using assms(3,4) by (rule find_first)
  with assms(1,2) show ?thesis
    unfolding checkFileSizeThresholds_warnings by simp
qed

text \<open>
  Claim C5.  The warnings returned by \<open>checkFileSizeThresholds\<close> are, in order, the
  warning of the grouped total followed by the warnings of the ungrouped files in inventory
  order, where each entity that is below the threshold (with warnings enabled)
  contributes the warning of the FIRST percentage of the caller-supplied list whose band
  its size meets, and nothing when it meets none.  So when the percentages before \<open>p\<close>
  are not met and \<open>p\<close> is, the group's warning at \<open>p\<close> heads the returned
  warnings and an ungrouped file's warning at \<open>p\<close> is among them, whatever follows
  \<open>p\<close> in the list; for an inventory holding one entity the returned record is
  exactly that one warning.  The loop stops at the first match, and the number of
  warnings returned is at most the number of entities.
\<close>

theorem C5_first_matching_percentage_only:
  "warnings (checkFileSizeThresholds di mb en (Some ps)) =
     (if en \<and> caidoFiles di \<noteq> [] \<and> caidoTotalSize di < thresholdBytes mb
      then (case find (meetsBand (caidoTotalSize di) (thresholdBytes mb)) ps of
              None \<Rightarrow> [] | Some p \<Rightarrow> [combinedWarningMessage di mb p])
      else []) @
     concat (map (\<lambda>f. case find (meetsBand (size_bytes f) (thresholdBytes mb)) ps of
                         None \<Rightarrow> [] | Some p \<Rightarrow> [fileWarningMessage f mb p])
       (filter (\<lambda>f. en \<and> \<not> isCaido f \<and> size_bytes f < thresholdBytes mb) (files di))) \<and>
   (caidoFiles di \<noteq> [] \<and> caidoTotalSize di < thresholdBytes mb \<and>
    (\<forall>q \<in> set pre. \<not> meetsBand (caidoTotalSize di) (thresholdBytes mb) q) \<and>
    meetsBand (caidoTotalSize di) (thresholdBytes mb) p \<longrightarrow>
      take 1 (warnings (checkFileSizeThresholds di mb True (Some (pre @ p # post)))) =
        [combinedWarningMessage di mb p] \<and>
      (list_all isCaido (files di) \<longrightarrow>
         checkFileSizeThresholds di mb True (Some (pre @ p # post)) =
           \<lparr>alerts = [], warnings = [combinedWarningMessage di mb p],
            sent = [\<lparr>alert_type = Warning,
                     alert_message = combinedWarningMessage di mb p\<rparr>]\<rparr>)) \<and>
   (file \<in> set (files di) \<and> \<not> isCaido file \<and> size_bytes file < thresholdBytes mb \<and>
    (\<forall>q \<in> set pre. \<not> meetsBand (size_bytes file) (thresholdBytes mb) q) \<and>
    meetsBand (size_bytes file) (thresholdBytes mb) p \<longrightarrow>
      fileWarningMessage file mb p
        \<in> set (warnings (checkFileSizeThresholds di mb True (Some (pre @ p # post)))) \<and>
      (files di = [file] \<and> caidoFiles di = [] \<longrightarrow>
         checkFileSizeThresholds di mb True (Some (pre @ p # post)) =
           \<lparr>alerts = [], warnings = [fileWarningMessage file mb p],
            sent = [\<lparr>alert_type = Warning,
                     alert_message = fileWarningMessage file mb p\<rparr>]\<rparr>)) \<and>
   (files di = [file] \<and> caidoFiles di = [] \<and> size_bytes file < thresholdBytes mb \<and>
    (\<forall>q \<in> set ps. \<not> meetsBand (size_bytes file) (thresholdBytes mb) q) \<longrightarrow>
      checkFileSizeThresholds di mb en (Some ps) = \<lparr>alerts = [], warnings = [], sent = []\<rparr>) \<and>
   ((\<forall>q \<in> set pre. \<not> meetsBand sz tb q) \<and> meetsBand sz tb p \<longrightarrow>
      warnLoop mk sz tb (pre @ p # post) st = pushWarning (mk p) st) \<and>
   length (warnings (checkFileSizeThresholds di mb en (Some ps)))
     \<le> (if caidoFiles di = [] then 0 else 1) + length (filter (\<lambda>f. \<not> isCaido f) (files di))"
proof (intro conjI impI)
  show "warnings (checkFileSizeThresholds di mb en (Some ps)) =
     (if en \<and> caidoFiles di \<noteq> [] \<and> caidoTotalSize di < thresholdBytes mb
      then (case find (meetsBand (caidoTotalSize di) (thresholdBytes mb)) ps of
              None \<Rightarrow> [] | Some p \<Rightarrow> [combinedWarningMessage di mb p])
      else []) @
     concat (map (\<lambda>f. case find (meetsBand (size_bytes f) (thresholdBytes mb)) ps of
                         None \<Rightarrow> [] | Some p \<Rightarrow> [fileWarningMessage f mb p])
       (filter (\<lambda>f. en \<and> \<not> isCaido f \<and> size_bytes f < thresholdBytes mb) (files di)))"
    by (rule checkFileSizeThresholds_warnings)
  show "length (warnings (checkFileSizeThresholds di mb en (Some ps)))
     \<le> (if caidoFiles di = [] then 0 else 1) + length (filter (\<lambda>f. \<not> isCaido f) (files di))"
    by (rule checkFileSizeThresholds_warnings_le)
next
  assume h: "caidoFiles di \<noteq> [] \<and> caidoTotalSize di < thresholdBytes mb \<and>
    (\<forall>q \<in> set pre. \<not> meetsBand (caidoTotalSize di) (thresholdBytes mb) q) \<and>
    meetsBand (caidoTotalSize di) (thresholdBytes mb) p"
  then show "take 1 (warnings (checkFileSizeThresholds di mb True (Some (pre @ p # post)))) =
        [combinedWarningMessage di mb p]"
    by (intro group_warning_first) simp_all
  assume "list_all isCaido (files di)"
  with h have "checkFileSizeThresholds di mb True (Some (pre @ p # post)) =
       pushWarning (combinedWarningMessage di mb p) emptyEval"
    by (intro group_warning) simp_all
  then show "checkFileSizeThresholds di mb True (Some (pre @ p # post)) =
           \<lparr>alerts = [], warnings = [combinedWarningMessage di mb p],
            sent = [\<lparr>alert_type = Warning,
                     alert_message = combinedWarningMessage di mb p\<rparr>]\<rparr>"
    by (simp add: pushWarning_def emptyEval_def)
next
  assume h: "file \<in> set (files di) \<and> \<not> isCaido file \<and> size_bytes file < thresholdBytes mb \<and>
    (\<forall>q \<in> set pre. \<not> meetsBand (size_bytes file) (thresholdBytes mb) q) \<and>
    meetsBand (size_bytes file) (thresholdBytes mb) p"
  then show "fileWarningMessage file mb p
        \<in> set (warnings (checkFileSizeThresholds di mb True (Some (pre @ p # post))))"
    by (intro file_warning_member) simp_all
  assume "files di = [file] \<and> caidoFiles di = []"
  with h have "checkFileSizeThresholds di mb True (Some (pre @ p # post)) =
       pushWarning (fileWarningMessage file mb p) emptyEval"
    by (intro single_file_warning) simp_all
  then show "checkFileSizeThresholds di mb True (Some (pre @ p # post)) =
           \<lparr>alerts = [], warnings = [fileWarningMessage file mb p],
            sent = [\<lparr>alert_type = Warning,
                     alert_message = fileWarningMessage file mb p\<rparr>]\<rparr>"
    by (simp add: pushWarning_def emptyEval_def)
next
  assume "files di = [file] \<and> caidoFiles di = [] \<and> size_bytes file < thresholdBytes mb \<and>
    (\<forall>q \<in> set ps. \<not> meetsBand (size_bytes file) (thresholdBytes mb) q)"
  then have "checkFileSizeThresholds di mb en (Some ps) = emptyEval"
    by (intro single_file_quiet) blast+
  then show "checkFileSizeThresholds di mb en (Some ps) = \<lparr>alerts = [], warnings = [], sent = []\<rparr>"
    by (simp add: emptyEval_def)
next
  assume "(\<forall>q \<in> set pre. \<not> meetsBand sz tb q) \<and> meetsBand sz tb p"
  then show "warnLoop mk sz tb (pre @ p # post) st = pushWarning (mk p) st"
    by (simp add: warnLoop_first)
qed

theorem C5_first_matching_percentage_only_witness:
  "checkFileSizeThresholds
     \<lparr>files = [\<lparr>name = ''p.caido'', size_bytes = 8388608, sizeFormatted = ''8 MB''\<rparr>, \<lparr>name = ''x.log'', size_bytes = 8000000, sizeFormatted = ''7.63 MB''\<rparr>],
      totalSize = 16388608, totalSizeFormatted = ''15.63 MB'', scanPath = ''/w'',
      caidoFiles = [\<lparr>name = ''p.caido'', size_bytes = 8388608, sizeFormatted = ''8 MB''\<rparr>],
      caidoTotalSize = 8388608, caidoTotalSizeFormatted = ''8 MB''\<rparr>
     10 True (Some ([95, 90] @ 75 # [50, 25])) =
   \<lparr>alerts = [],
    warnings = [''Combined .caido files (8 MB) are at 75% of 10MB threshold'',
      ''File '' @ [CHR 0x22] @ ''x.log'' @ [CHR 0x22] @ '' (7.63 MB) is at 75% of 10MB threshold''],
    sent = [\<lparr>alert_type = Warning, alert_message =
      ''Combined .caido files (8 MB) are at 75% of 10MB threshold''\<rparr>,
      \<lparr>alert_type = Warning, alert_message =
      ''File '' @ [CHR 0x22] @ ''x.log'' @ [CHR 0x22] @ '' (7.63 MB) is at 75% of 10MB threshold''\<rparr>]\<rparr> \<and>
   checkFileSizeThresholds
     \<lparr>files = [\<lparr>name = ''p.caido'', size_bytes = 9961472, sizeFormatted = ''9.5 MB''\<rparr>],
      totalSize = 9961472, totalSizeFormatted = ''9.5 MB'', scanPath = ''/w'',
      caidoFiles = [\<lparr>name = ''p.caido'', size_bytes = 9961472, sizeFormatted = ''9.5 MB''\<rparr>],
      caidoTotalSize = 9961472, caidoTotalSizeFormatted = ''9.5 MB''\<rparr>
     10 True (Some ([] @ 90 # [75])) =
   \<lparr>alerts = [],
    warnings = [''Combined .caido files (9.5 MB) are at 90% of 10MB threshold''],
    sent = [\<lparr>alert_type = Warning, alert_message =
      ''Combined .caido files (9.5 MB) are at 90% of 10MB threshold''\<rparr>]\<rparr> \<and>
   checkFileSizeThresholds
     \<lparr>files = [\<lparr>name = ''x.log'', size_bytes = 8388608, sizeFormatted = ''8 MB''\<rparr>],
      totalSize = 8388608, totalSizeFormatted = ''8 MB'', scanPath = ''/w'',
      caidoFiles = [],
      caidoTotalSize = 0, caidoTotalSizeFormatted = ''0 B''\<rparr>
     10 True (Some ([90] @ 75 # [50])) =
   \<lparr>alerts = [],
    warnings = [''File '' @ [CHR 0x22] @ ''x.log'' @ [CHR 0x22] @ '' (8 MB) is at 75% of 10MB threshold''],
    sent = [\<lparr>alert_type = Warning, alert_message =
      ''File '' @ [CHR 0x22] @ ''x.log'' @ [CHR 0x22] @ '' (8 MB) is at 75% of 10MB threshold''\<rparr>]\<rparr> \<and>
   checkFileSizeThresholds
     \<lparr>files = [\<lparr>name = ''x.log'', size_bytes = 1048576, sizeFormatted = ''1 MB''\<rparr>],
      totalSize = 1048576, totalSizeFormatted = ''1 MB'', scanPath = ''/w'',
      caidoFiles = [],
      caidoTotalSize = 0, caidoTotalSizeFormatted = ''0 B''\<rparr>
     10 True (Some [75, 90]) =
   \<lparr>alerts = [], warnings = [], sent = []\<rparr> \<and>
   warnLoop (\<lambda>p. showNat p) 8388608 10485760 ([95, 90] @ 75 # [50, 25]) emptyEval =
     pushWarning ''75'' emptyEval"
  using C5_first_matching_percentage_only
    [of "\<lparr>files = [\<lparr>name = ''p.caido'', size_bytes = 8388608, sizeFormatted = ''8 MB''\<rparr>, \<lparr>name = ''x.log'', size_bytes = 8000000, sizeFormatted = ''7.63 MB''\<rparr>],
      totalSize = 16388608, totalSizeFormatted = ''15.63 MB'', scanPath = ''/w'',
      caidoFiles = [\<lparr>name = ''p.caido'', size_bytes = 8388608, sizeFormatted = ''8 MB''\<rparr>],
      caidoTotalSize = 8388608, caidoTotalSizeFormatted = ''8 MB''\<rparr>"
      10 True "[95, 90, 75, 50, 25]" "[95, 90]" 75 "[50, 25]"
      "\<lparr>name = ''x.log'', size_bytes = 8000000, sizeFormatted = ''7.63 MB''\<rparr>"
      8388608 10485760 "\<lambda>p. showNat p" emptyEval]
    C5_first_matching_percentage_only
    [of "\<lparr>files = [\<lparr>name = ''p.caido'', size_bytes = 9961472, sizeFormatted = ''9.5 MB''\<rparr>],
      totalSize = 9961472, totalSizeFormatted = ''9.5 MB'', scanPath = ''/w'',
      caidoFiles = [\<lparr>name = ''p.caido'', size_bytes = 9961472, sizeFormatted = ''9.5 MB''\<rparr>],
      caidoTotalSize = 9961472, caidoTotalSizeFormatted = ''9.5 MB''\<rparr>"
      10 True "[90, 75]" "[]" 90 "[75]"
      "\<lparr>name = ''p.caido'', size_bytes = 9961472, sizeFormatted = ''9.5 MB''\<rparr>"
      8388608 10485760 "\<lambda>p. showNat p" emptyEval]
    C5_first_matching_percentage_only
    [of "\<lparr>files = [\<lparr>name = ''x.log'', size_bytes = 8388608, sizeFormatted = ''8 MB''\<rparr>],
      totalSize = 8388608, totalSizeFormatted = ''8 MB'', scanPath = ''/w'',
      caidoFiles = [],
      caidoTotalSize = 0, caidoTotalSizeFormatted = ''0 B''\<rparr>"
      10 True "[90, 75, 50]" "[90]" 75 "[50]"
      "\<lparr>name = ''x.log'', size_bytes = 8388608, sizeFormatted = ''8 MB''\<rparr>"
      8388608 10485760 "\<lambda>p. showNat p" emptyEval]
    C5_first_matching_percentage_only
    [of "\<lparr>files = [\<lparr>name = ''x.log'', size_bytes = 1048576, sizeFormatted = ''1 MB''\<rparr>],
      totalSize = 1048576, totalSizeFormatted = ''1 MB'', scanPath = ''/w'',
      caidoFiles = [],
      caidoTotalSize = 0, caidoTotalSizeFormatted = ''0 B''\<rparr>"
      10 True "[75, 90]" "[]" 75 "[90]"
      "\<lparr>name = ''x.log'', size_bytes = 1048576, sizeFormatted = ''1 MB''\<rparr>"
      8388608 10485760 "\<lambda>p. showNat p" emptyEval]
  by (simp add: eval_defs meetsBand_def)
section \<open>Properties of the scan\<close>

lemmas scan_eval = getWorkspaceFilesAt_def getWorkspaceFilesAt_try_def getWorkspaceFiles_def
  getWorkspaceFiles_try_def resolvePath_def projectPath_def scanAndSummarise_def
  sortBySizeDesc_def emptyInfo_def EMPTY_INFO_def pathExists_def getCaidoProjectsDir_def
  exampleEnv_def exampleTree_def endsWith_def Let_def

lemmas path_eval = expandPath_def trim_def isWhiteSpace_def startsWith_def replaceTilde_def

lemma scan_total:
  "snd st = sum_list (map size_bytes (fst st)) \<Longrightarrow>
     snd (scanDirectory node dirPath relativePath st) =
       sum_list (map size_bytes (fst (scanDirectory node dirPath relativePath st)))"
  "snd st = sum_list (map size_bytes (fst st)) \<Longrightarrow>
     snd (scanEntries entries dirPath relativePath st) =
       sum_list (map size_bytes (fst (scanEntries entries dirPath relativePath st)))"
proof (induction node dirPath relativePath st and entries dirPath relativePath st
    rule: scanDirectory_scanEntries.induct)
  case (6 entryName node rest dirPath relativePath st)
  show ?case
  proof (cases node)
    case (FileNode sz)
    with 6 show ?thesis by (cases sz) (simp_all add: Let_def)
  next
    case (DirNode es)
    with 6 show ?thesis by (simp add: Let_def)
  next
    case LockedDir
    with 6 show ?thesis by (simp add: Let_def)
  next
    case OtherNode
    with 6 show ?thesis by (simp add: Let_def)
  qed
qed simp_all

lemma sum_list_insort_key:
  "sum_list (map f (insort_key k x xs)) = (f x :: nat) + sum_list (map f xs)"
  by (induction xs) simp_all

lemma sum_list_sort_key: "sum_list (map f (sort_key k xs)) = (sum_list (map f xs) :: nat)"
  by (induction xs) (simp_all add: sum_list_insort_key)

lemma foldl_sizes:
  "foldl (\<lambda>total file. total + size_bytes file) a fs = a + sum_list (map size_bytes fs)"
  by (induction fs arbitrary: a) simp_all

lemma isCaido_fun: "(\<lambda>file. endsWith (name file) ''.caido'') = isCaido"
  by (simp add: isCaido_def fun_eq_iff)

lemma inventoryInvariant_emptyInfo: "inventoryInvariant (emptyInfo p)"
  by (simp add: inventoryInvariant_def emptyInfo_def)

lemma scanAndSummarise_invariant:
  "scanAndSummarise env node path = Inr r \<Longrightarrow> inventoryInvariant (fst r)"
  using scan_total(1) [of "([], 0)" node path "''''"]
  by (auto simp: scanAndSummarise_def Let_def inventoryInvariant_def sortBySizeDesc_def
      sum_list_sort_key foldl_sizes isCaido_fun split: option.splits)

text \<open>
  Claim C4.  Every inventory either variant of \<open>getWorkspaceFiles\<close> returns, over any
  file system and in any order of the directory entries, has \<open>totalSize\<close> equal to the
  sum of the sizes of its files, \<open>caidoFiles\<close> equal to its files whose name ends with
  \<open>.caido\<close>, in the same order and hence a subsequence of them, and \<open>caidoTotalSize\<close>
  equal to the sum of the sizes of exactly those files.
\<close>

theorem C4_inventory_totals_consistent:
  "inventoryInvariant (fst (getWorkspaceFiles env)) \<and>
   inventoryInvariant (fst (getWorkspaceFilesAt env workspacePath))"
proof
  show "inventoryInvariant (fst (getWorkspaceFiles env))"
    by (auto simp: getWorkspaceFiles_def getWorkspaceFiles_try_def EMPTY_INFO_def
        inventoryInvariant_emptyInfo Let_def
        split: sum.splits option.splits dest: scanAndSummarise_invariant)
  show "inventoryInvariant (fst (getWorkspaceFilesAt env workspacePath))"
    by (auto simp: getWorkspaceFilesAt_def getWorkspaceFilesAt_try_def
        inventoryInvariant_emptyInfo
        split: sum.splits option.splits dest: scanAndSummarise_invariant)
qed

theorem C4_inventory_totals_consistent_witness:
  "fst (getWorkspaceFiles exampleEnv) =
     \<lparr>files = [\<lparr>name = ''a.caido'', size_bytes = 6291456, sizeFormatted = ''6 MB''\<rparr>,
               \<lparr>name = ''b.caido'', size_bytes = 5242880, sizeFormatted = ''5 MB''\<rparr>,
               \<lparr>name = ''logs/c.txt'', size_bytes = 3145728, sizeFormatted = ''3 MB''\<rparr>],
      totalSize = 14680064, totalSizeFormatted = ''14 MB'', scanPath = ''/data/p1'',
      caidoFiles = [\<lparr>name = ''a.caido'', size_bytes = 6291456, sizeFormatted = ''6 MB''\<rparr>,
                    \<lparr>name = ''b.caido'', size_bytes = 5242880, sizeFormatted = ''5 MB''\<rparr>],
      caidoTotalSize = 11534336, caidoTotalSizeFormatted = ''11 MB''\<rparr> \<and>
   inventoryInvariant (fst (getWorkspaceFiles exampleEnv)) \<and>
   scanPath (fst (getWorkspaceFilesAt exampleEnv (Some '' ~/ws ''))) = ''/home/u/ws'' \<and>
   inventoryInvariant (fst (getWorkspaceFilesAt exampleEnv (Some '' ~/ws '')))"
  using C4_inventory_totals_consistent [of exampleEnv "Some '' ~/ws ''"]
  by (simp add: scan_eval format_eval path_eval)

text \<open>
  Claim C6, at a path pasted from a terminal.  \<open>expandPath\<close> trims the input and
  replaces the leading \<open>~\<close> by the home directory, but a space escaped by one backslash
  keeps its backslash: the pattern of the replacement asks for two backslashes before
  the space, and only that three-character sequence becomes a plain space.  The path is
  returned without any look at the file system.
\<close>

theorem C6_single_backslash_space_is_kept:
  "expandPath ''/home/u'' (''  ~/My'' @ [CHR 0x5C] @ '' Project  '') =
     ''/home/u/My'' @ [CHR 0x5C] @ '' Project'' \<and>
   expandPath ''/home/u'' (''/tmp/My'' @ [CHR 0x5C] @ '' Project'') =
     ''/tmp/My'' @ [CHR 0x5C] @ '' Project'' \<and>
   expandPath ''/home/u'' (''/tmp/My'' @ [CHR 0x5C, CHR 0x5C] @ '' Project'') =
     ''/tmp/My Project'' \<and>
   resolvePath exampleEnv (Some (''/tmp/My'' @ [CHR 0x5C] @ '' Project'')) =
     Inr (Some (''/tmp/My'' @ [CHR 0x5C] @ '' Project''))"
  by (simp add: path_eval resolvePath_def exampleEnv_def)

lemma isEmptyInventory_emptyInfo: "isEmptyInventory (emptyInfo p)"
  by (simp add: isEmptyInventory_def emptyInfo_def)

text \<open>
  Claim C7.  When there is no current project, when the root path does not exist, or
  when the body of the \<open>try\<close> fails (the project query throws, or sending the summary
  throws), both variants return an inventory without files and with zero totals, and
  send no summary.  Its \<open>scanPath\<close> is the attempted path in the variant with a workspace
  path and the root missing, and otherwise one of the fixed texts, empty or \<open>error\<close>.
  The failure never reaches the caller: the result of the \<open>try\<close> body being an error
  is turned into that inventory.
\<close>

theorem C7_unreachable_root_gives_empty_inventory:
  "(getCurrent env = Inr None \<longrightarrow> getWorkspaceFiles env = (EMPTY_INFO, None)) \<and>
   (getCurrent env = Inr (Some project) \<and> lookup env (getPath project) = None \<longrightarrow>
      getWorkspaceFiles env = (EMPTY_INFO, None)) \<and>
   (getWorkspaceFiles_try env = Inl err \<longrightarrow> getWorkspaceFiles env = (EMPTY_INFO, None)) \<and>
   (getCurrent env = Inl err \<longrightarrow> getWorkspaceFiles_try env = Inl err) \<and>
   (getCurrent env = Inr (Some project) \<and> lookup env (getPath project) = Some node \<and>
    sendThrows env = Some err \<longrightarrow> getWorkspaceFiles_try env = Inl err) \<and>
   (resolvePath env workspacePath = Inr None \<longrightarrow>
      getWorkspaceFilesAt env workspacePath = (emptyInfo [] , None)) \<and>
   ((workspacePath = None \<or> workspacePath = Some []) \<and> getCurrent env = Inr None \<longrightarrow>
      resolvePath env workspacePath = Inr None) \<and>
   (resolvePath env workspacePath = Inr (Some path) \<and> lookup env path = None \<longrightarrow>
      getWorkspaceFilesAt env workspacePath = (emptyInfo path, None)) \<and>
   (getWorkspaceFilesAt_try env workspacePath = Inl err \<longrightarrow>
      getWorkspaceFilesAt env workspacePath = (emptyInfo ''error'', None)) \<and>
   ((workspacePath = None \<or> workspacePath = Some []) \<and> getCurrent env = Inl err \<longrightarrow>
      getWorkspaceFilesAt_try env workspacePath = Inl err) \<and>
   (resolvePath env workspacePath = Inr (Some path) \<and> lookup env path = Some node \<and>
    sendThrows env = Some err \<longrightarrow> getWorkspaceFilesAt_try env workspacePath = Inl err) \<and>
   isEmptyInventory EMPTY_INFO \<and> scanPath EMPTY_INFO = [] \<and>
   isEmptyInventory (emptyInfo path) \<and> scanPath (emptyInfo path) = path"
  by (auto simp: getWorkspaceFiles_def getWorkspaceFiles_try_def getWorkspaceFilesAt_def
      getWorkspaceFilesAt_try_def resolvePath_def projectPath_def scanAndSummarise_def
      EMPTY_INFO_def isEmptyInventory_emptyInfo Let_def)
    (simp_all add: emptyInfo_def)

theorem C7_unreachable_root_gives_empty_inventory_witness:
  "getWorkspaceFiles (exampleEnv\<lparr>getCurrent := Inr None\<rparr>) = (EMPTY_INFO, None) \<and>
   getWorkspaceFiles
     (exampleEnv\<lparr>getCurrent := Inr (Some \<lparr>getId = ''p9'', getPath = ''/data/p9''\<rparr>)\<rparr>) =
     (EMPTY_INFO, None) \<and>
   getWorkspaceFiles (exampleEnv\<lparr>getCurrent := Inl ''rejected''\<rparr>) = (EMPTY_INFO, None) \<and>
   getWorkspaceFilesAt (exampleEnv\<lparr>getCurrent := Inr None\<rparr>) None = (emptyInfo [], None) \<and>
   getWorkspaceFilesAt exampleEnv (Some ''~/nothere'') = (emptyInfo ''/home/u/nothere'', None) \<and>
   getWorkspaceFilesAt exampleEnv None = (emptyInfo ''/plugin'', None) \<and>
   getWorkspaceFilesAt (exampleEnv\<lparr>sendThrows := Some ''closed''\<rparr>) (Some ''~/ws'') =
     (emptyInfo ''error'', None) \<and>
   isEmptyInventory (emptyInfo ''/home/u/nothere'')"
  using
    C7_unreachable_root_gives_empty_inventory
      [of "exampleEnv\<lparr>getCurrent := Inr None\<rparr>" "\<lparr>getId = ''p9'', getPath = ''/data/p9''\<rparr>"
        "''rejected''" exampleTree None "[]"]
    C7_unreachable_root_gives_empty_inventory
      [of "exampleEnv\<lparr>getCurrent := Inr (Some \<lparr>getId = ''p9'', getPath = ''/data/p9''\<rparr>)\<rparr>"
        "\<lparr>getId = ''p9'', getPath = ''/data/p9''\<rparr>"
        "''rejected''" exampleTree None "[]"]
    C7_unreachable_root_gives_empty_inventory
      [of "exampleEnv\<lparr>getCurrent := Inl ''rejected''\<rparr>" "\<lparr>getId = ''p9'', getPath = ''/data/p9''\<rparr>"
        "''rejected''" exampleTree None "[]"]
    C7_unreachable_root_gives_empty_inventory
      [of exampleEnv "\<lparr>getId = ''p1'', getPath = ''/data/p1''\<rparr>"
        "''closed''" exampleTree "Some ''~/nothere''" "''/home/u/nothere''"]
    C7_unreachable_root_gives_empty_inventory
      [of exampleEnv "\<lparr>getId = ''p1'', getPath = ''/data/p1''\<rparr>"
        "''closed''" exampleTree None "''/plugin''"]
    C7_unreachable_root_gives_empty_inventory
      [of "exampleEnv\<lparr>sendThrows := Some ''closed''\<rparr>" "\<lparr>getId = ''p1'', getPath = ''/data/p1''\<rparr>"
        "''closed''" exampleTree "Some ''~/ws''" "''/home/u/ws''"]
  by (simp add: scan_eval path_eval isEmptyInventory_def)

section \<open>Properties of the alert escalation\<close>

lemma cancelRepeat_fields [simp]:
  "shown (cancelRepeat a s) = shown s"
  "ignoredAlerts (cancelRepeat a s) = ignoredAlerts s"
  "now (cancelRepeat a s) = now s"
  by (simp_all add: cancelRepeat_def clearInterval_def split: option.splits)

lemma timerCallback_now [simp]: "now (timerCallback answers alert a s) = now s"
  by (simp add: timerCallback_def showSingleAlert_def Let_def)

lemma fireDue_now [simp]: "now (fireDue answers ids s) = now s"
  by (induction ids arbitrary: s) (simp_all split: option.splits)

lemma tick_now [simp]: "now (tick answers s) = now s + 1"
  by (simp add: tick_def Let_def)

lemma advance_now [simp]: "now (advance answers n s) = now s + n"
  by (induction n) simp_all




lemma reschedule_fst [simp]: "map fst (reschedule i ts) = map fst ts"
  by (induction ts) (auto simp: reschedule_def)














lemma showThresholdAlert_now [simp]: "now (showThresholdAlert answers alert s) = now s"
  by (simp add: showThresholdAlert_def showSingleAlert_def setInterval_def Let_def
      split: option.splits)












lemma cancelRepeat_frame [simp]:
  "alertCounters (cancelRepeat a s) = alertCounters s"
  "nextCounter (cancelRepeat a s) = nextCounter s"
  "nextTimerId (cancelRepeat a s) = nextTimerId s"
  by (simp_all add: cancelRepeat_def clearInterval_def split: option.splits)



lemma showSingleAlert_frame [simp]:
  "alertCounters (showSingleAlert answers alert a n s) = alertCounters s"
  "nextCounter (showSingleAlert answers alert a n s) = nextCounter s"
  "nextTimerId (showSingleAlert answers alert a n s) = nextTimerId s"
  by (simp_all add: showSingleAlert_def Let_def)























lemma showSingleAlert_ignored_mono:
  "k \<in> ignoredAlerts s \<Longrightarrow> k \<in> ignoredAlerts (showSingleAlert answers alert a n s)"
  by (simp add: showSingleAlert_def Let_def)

lemma showSingleAlert_other:
  "alertKey alert \<noteq> k \<Longrightarrow> displaysOf k (showSingleAlert answers alert a n s) = displaysOf k s"
  by (simp add: showSingleAlert_def Let_def displaysOf_def)

lemma timerCallback_ignored:
  "k \<in> ignoredAlerts s \<Longrightarrow>
     k \<in> ignoredAlerts (timerCallback answers alert a s) \<and>
     displaysOf k (timerCallback answers alert a s) = displaysOf k s"
proof (cases "alertKey alert \<in> ignoredAlerts s")
  case True
  assume "k \<in> ignoredAlerts s"
  with True show ?thesis by (simp add: timerCallback_def displaysOf_def)
next
  case False
  assume k: "k \<in> ignoredAlerts s"
  with False have ne: "alertKey alert \<noteq> k" by auto
  let ?s1 = "s\<lparr>counters := (counters s)(a := (counters s a)\<lparr>count := count (counters s a) + 1\<rparr>)\<rparr>"
  have k1: "k \<in> ignoredAlerts ?s1" using k by simp
  have d1: "displaysOf k ?s1 = displaysOf k s" by (simp add: displaysOf_def)
  show ?thesis
    using False showSingleAlert_ignored_mono [OF k1, of answers alert a "count (counters ?s1 a)"]
      showSingleAlert_other [OF ne, of answers a "count (counters ?s1 a)" ?s1] d1
    by (simp add: timerCallback_def Let_def displaysOf_def)
qed

lemma fireDue_ignored:
  "k \<in> ignoredAlerts s \<Longrightarrow>
     k \<in> ignoredAlerts (fireDue answers ids s) \<and>
     displaysOf k (fireDue answers ids s) = displaysOf k s"
proof (induction ids arbitrary: s)
  case Nil
  then show ?case by simp
next
  case (Cons i ids)
  show ?case
  proof (cases "map_of (timers s) i")
    case None
    with Cons show ?thesis by simp
  next
    case (Some t)
    let ?s1 = "s\<lparr>timers := map (\<lambda>(j, u). if j = i then (j, u\<lparr>due := due u + repeatInterval\<rparr>)
                                        else (j, u)) (timers s)\<rparr>"
    have k1: "k \<in> ignoredAlerts ?s1" using Cons.prems by simp
    have d1: "displaysOf k ?s1 = displaysOf k s" by (simp add: displaysOf_def)
    from timerCallback_ignored [OF k1, of answers "timerAlert t" "timerCounter t"]
    have "k \<in> ignoredAlerts (timerCallback answers (timerAlert t) (timerCounter t) ?s1)"
      and "displaysOf k (timerCallback answers (timerAlert t) (timerCounter t) ?s1) = displaysOf k s"
      using d1 by simp_all
    with Cons.IH [of "timerCallback answers (timerAlert t) (timerCounter t) ?s1"] Some
    show ?thesis by simp
  qed
qed

lemma tick_ignored:
  "k \<in> ignoredAlerts s \<Longrightarrow>
     k \<in> ignoredAlerts (tick answers s) \<and> displaysOf k (tick answers s) = displaysOf k s"
proof -
  assume k: "k \<in> ignoredAlerts s"
  let ?s1 = "s\<lparr>now := now s + 1\<rparr>"
  have k1: "k \<in> ignoredAlerts ?s1" using k by simp
  have d1: "displaysOf k ?s1 = displaysOf k s" by (simp add: displaysOf_def)
  from fireDue_ignored [OF k1] d1 show ?thesis by (simp add: tick_def Let_def)
qed

lemma advance_ignored:
  "k \<in> ignoredAlerts s \<Longrightarrow>
     k \<in> ignoredAlerts (advance answers n s) \<and> displaysOf k (advance answers n s) = displaysOf k s"
  by (induction n) (simp_all add: tick_ignored)

lemma showThresholdAlert_ignored:
  "k \<in> ignoredAlerts s \<Longrightarrow>
     k \<in> ignoredAlerts (showThresholdAlert answers alert s) \<and>
     displaysOf k (showThresholdAlert answers alert s) = displaysOf k s"
proof (cases "alertKey alert \<in> ignoredAlerts s")
  case True
  assume "k \<in> ignoredAlerts s"
  with True show ?thesis by (simp add: showThresholdAlert_def)
next
  case False
  assume k: "k \<in> ignoredAlerts s"
  with False have ne: "alertKey alert \<noteq> k" by auto
  show ?thesis
    using False k ne
    by (auto simp: showThresholdAlert_def Let_def setInterval_def displaysOf_def
        showSingleAlert_def split: option.splits)
qed

lemma step_ignored:
  "\<lbrakk>k \<in> ignoredAlerts s; e \<noteq> ClearAll\<rbrakk> \<Longrightarrow>
     k \<in> ignoredAlerts (step answers e s) \<and> displaysOf k (step answers e s) = displaysOf k s"
  by (cases e) (simp_all add: showThresholdAlert_ignored advance_ignored)

lemma run_ignored:
  "\<lbrakk>k \<in> ignoredAlerts s; ClearAll \<notin> set es\<rbrakk> \<Longrightarrow>
     k \<in> ignoredAlerts (run answers es s) \<and> displaysOf k (run answers es s) = displaysOf k s"
proof (induction es arbitrary: s)
  case Nil
  then show ?case by simp
next
  case (Cons e es)
  then have "e \<noteq> ClearAll" and rest: "ClearAll \<notin> set es" by auto
  with Cons.prems(1) have
    "k \<in> ignoredAlerts (step answers e s)" "displaysOf k (step answers e s) = displaysOf k s"
    using step_ignored by blast+
  with Cons.IH [OF _ rest, of "step answers e s"] show ?case by simp
qed

lemma showSingleAlert_cancel:
  "\<not> answers (length (shown s)) \<Longrightarrow>
     alertKey alert \<in> ignoredAlerts (showSingleAlert answers alert a n s) \<and>
     intervalId (counters (showSingleAlert answers alert a n s) a) = None \<and>
     (\<forall>i. intervalId (counters s a) = Some i \<longrightarrow>
        i \<notin> fst ` set (timers (showSingleAlert answers alert a n s))) \<and>
     shown (showSingleAlert answers alert a n s) = shown s @ [(alertKey alert, n)]"
  by (auto simp: showSingleAlert_def Let_def cancelRepeat_def clearInterval_def
      split: option.splits)

lemma clearCounterTimers_fields [simp]:
  "ignoredAlerts (clearCounterTimers cs s) = ignoredAlerts s"
  "shown (clearCounterTimers cs s) = shown s"
  "counters (clearCounterTimers cs s) = counters s"
  "alertCounters (clearCounterTimers cs s) = alertCounters s"
  "nextCounter (clearCounterTimers cs s) = nextCounter s"
  by (induction cs arbitrary: s) (auto simp: clearInterval_def split: option.splits)

lemma clearAllNotifications_resets:
  "ignoredAlerts (clearAllNotifications s) = {} \<and>
   alertCounters (clearAllNotifications s) = [] \<and>
   shown (clearAllNotifications s) = shown s"
  by (simp add: clearAllNotifications_def)

lemma showThresholdAlert_displays:
  "alertKey alert \<notin> ignoredAlerts s \<Longrightarrow>
     shown (showThresholdAlert answers alert s) = shown s @ [(alertKey alert, 1)]"
  by (auto simp: showThresholdAlert_def Let_def setInterval_def showSingleAlert_def
      split: option.splits)

lemma redelivery_after_clear:
  "displaysOf (alertKey alert) (showThresholdAlert answers alert (clearAllNotifications s)) =
     displaysOf (alertKey alert) s @ [(alertKey alert, 1)]"
proof -
  have "alertKey alert \<notin> ignoredAlerts (clearAllNotifications s)"
    by (simp add: clearAllNotifications_resets)
  from showThresholdAlert_displays [OF this, of answers]
  show ?thesis by (simp add: displaysOf_def clearAllNotifications_resets)
qed

lemma showSingleAlert_cancel_timers:
  assumes "\<not> answers (length (shown s))" "timersOf (alertKey alert) s = [(i, t)]"
    "intervalId (counters s a) = Some i"
  shows "timersOf (alertKey alert) (showSingleAlert answers alert a n s) = []"
proof -
  have "timers (showSingleAlert answers alert a n s) = filter (\<lambda>(j, u). j \<noteq> i) (timers s)"
    using assms(1,3)
    by (simp add: showSingleAlert_def Let_def cancelRepeat_def clearInterval_def)
  then have "timersOf (alertKey alert) (showSingleAlert answers alert a n s) =
      filter (\<lambda>(j, u). j \<noteq> i) (timersOf (alertKey alert) s)"
    by (simp add: timersOf_def conj_commute)
  with assms(2) show ?thesis by simp
qed

lemma alertKey_inj: "alertKey alert = alertKey alert' \<Longrightarrow> alert = alert'"
  by (cases alert; cases alert'; cases "alert_type alert"; cases "alert_type alert'")
    (simp_all add: alertKey_def severityText_def)

text \<open>
  Time passing while no timer is due, and the run in which an alert is delivered twice
  before the dialog of its first timer is answered Cancel.
\<close>

lemma advance_idle:
  "\<forall>(i, t) \<in> set (timers s). now s + n < due t \<Longrightarrow>
     advance answers n s = s\<lparr>now := now s + n\<rparr>"
proof (induction n)
  case 0
  show ?case by simp
next
  case (Suc n)
  then have "\<forall>(i, t) \<in> set (timers s). now s + n < due t" by fastforce
  then have ih: "advance answers n s = s\<lparr>now := now s + n\<rparr>" by (rule Suc.IH)
  have "filter (\<lambda>(i, t). due t = Suc (now s + n)) (timers s) = []"
    using Suc.prems by (auto simp: filter_empty_conv)
  then show ?case by (simp add: ih tick_def)
qed

lemma two_deliveries:
  "run (\<lambda>n. n \<noteq> 2) [Deliver exampleAlert, Deliver exampleAlert] initialEscalator =
     \<lparr>ignoredAlerts = {}, alertCounters = [(alertKey exampleAlert, 0)],
      counters = (\<lambda>a. \<lparr>count = 0, intervalId = None\<rparr>)(0 := \<lparr>count = 1, intervalId = Some 2\<rparr>),
      nextCounter = 1,
      timers = [(1, \<lparr>timerAlert = exampleAlert, timerCounter = 0, due = 60000\<rparr>),
                (2, \<lparr>timerAlert = exampleAlert, timerCounter = 0, due = 60000\<rparr>)],
      nextTimerId = 3, flashBanner = Some exampleAlert,
      uiAlerts = [], uiWarnings = [], now = 0,
      shown = [(alertKey exampleAlert, 1), (alertKey exampleAlert, 1)]\<rparr>"
  by (simp add: showThresholdAlert_def showSingleAlert_def setInterval_def initialEscalator_def
      repeatInterval_def Let_def numeral_2_eq_2)

lemma minute_later:
  "run (\<lambda>n. n \<noteq> 2) [Deliver exampleAlert, Deliver exampleAlert, Elapse 60000] initialEscalator =
     \<lparr>ignoredAlerts = {alertKey exampleAlert}, alertCounters = [(alertKey exampleAlert, 0)],
      counters = (\<lambda>a. \<lparr>count = 0, intervalId = None\<rparr>)(0 := \<lparr>count = 2, intervalId = None\<rparr>),
      nextCounter = 1,
      timers = [(1, \<lparr>timerAlert = exampleAlert, timerCounter = 0, due = 120000\<rparr>)],
      nextTimerId = 3, flashBanner = Some exampleAlert,
      uiAlerts = [], uiWarnings = [], now = 60000,
      shown = [(alertKey exampleAlert, 1), (alertKey exampleAlert, 1),
               (alertKey exampleAlert, 2)]\<rparr>"
proof -
  let ?s2 = "run (\<lambda>n. n \<noteq> 2) [Deliver exampleAlert, Deliver exampleAlert] initialEscalator"
  have idle: "advance (\<lambda>n. n \<noteq> 2) 59999 ?s2 = ?s2\<lparr>now := now ?s2 + 59999\<rparr>"
    unfolding two_deliveries by (rule advance_idle) simp
  have "advance (\<lambda>n. n \<noteq> 2) (Suc 59999) ?s2 = tick (\<lambda>n. n \<noteq> 2) (?s2\<lparr>now := now ?s2 + 59999\<rparr>)"
    by (simp only: advance.simps idle)
  then have "advance (\<lambda>n. n \<noteq> 2) 60000 ?s2 = tick (\<lambda>n. n \<noteq> 2) (?s2\<lparr>now := now ?s2 + 59999\<rparr>)"
    by simp
  moreover have "run (\<lambda>n. n \<noteq> 2) [Deliver exampleAlert, Deliver exampleAlert, Elapse 60000]
      initialEscalator = advance (\<lambda>n. n \<noteq> 2) 60000 ?s2"
    by simp
  ultimately show ?thesis
    unfolding two_deliveries
    by (simp add: tick_def timerCallback_def showSingleAlert_def cancelRepeat_def
        clearInterval_def repeatInterval_def Let_def numeral_2_eq_2)
qed

lemma orphan_tick:
  assumes "alertKey alert \<in> ignoredAlerts s" "intervalId (counters s a) = None"
    "timers s = [(i, \<lparr>timerAlert = alert, timerCounter = a, due = d\<rparr>)]" "now s < d"
  shows "\<exists>d'. now s + 1 < d' \<and>
           tick answers s =
             s\<lparr>now := now s + 1,
               timers := [(i, \<lparr>timerAlert = alert, timerCounter = a, due = d'\<rparr>)]\<rparr>"
proof (cases "d = now s + 1")
  case True
  with assms(1-3) have "tick answers s =
      s\<lparr>now := now s + 1,
        timers := [(i, \<lparr>timerAlert = alert, timerCounter = a, due = d + repeatInterval\<rparr>)]\<rparr>"
    by (simp add: tick_def timerCallback_def cancelRepeat_def Let_def)
  moreover have "now s + 1 < d + repeatInterval" using True by (simp add: repeatInterval_def)
  ultimately show ?thesis by blast
next
  case False
  with assms(3) have "tick answers s = s\<lparr>now := now s + 1\<rparr>"
    by (simp add: tick_def Let_def)
  also have "\<dots> = s\<lparr>now := now s + 1,
      timers := [(i, \<lparr>timerAlert = alert, timerCounter = a, due = d\<rparr>)]\<rparr>"
    using assms(3) by (cases s) simp
  finally have "tick answers s = s\<lparr>now := now s + 1,
      timers := [(i, \<lparr>timerAlert = alert, timerCounter = a, due = d\<rparr>)]\<rparr>" .
  moreover have "now s + 1 < d" using False assms(4) by simp
  ultimately show ?thesis by blast
qed

lemma orphan_advance:
  assumes "alertKey alert \<in> ignoredAlerts s" "intervalId (counters s a) = None"
    "timers s = [(i, \<lparr>timerAlert = alert, timerCounter = a, due = d\<rparr>)]" "now s < d"
  shows "\<exists>d'. now s + n < d' \<and>
           advance answers n s =
             s\<lparr>now := now s + n,
               timers := [(i, \<lparr>timerAlert = alert, timerCounter = a, due = d'\<rparr>)]\<rparr>"
proof (induction n)
  case 0
  have "s = s\<lparr>now := now s + 0,
      timers := [(i, \<lparr>timerAlert = alert, timerCounter = a, due = d\<rparr>)]\<rparr>"
    using assms(3) by (cases s) simp
  with assms(4) show ?case by auto
next
  case (Suc n)
  then obtain d' where d': "now s + n < d'"
    and eq: "advance answers n s =
      s\<lparr>now := now s + n,
        timers := [(i, \<lparr>timerAlert = alert, timerCounter = a, due = d'\<rparr>)]\<rparr>"
    by blast
  let ?s = "advance answers n s"
  have "\<exists>d''. now ?s + 1 < d'' \<and>
      tick answers ?s =
        ?s\<lparr>now := now ?s + 1,
          timers := [(i, \<lparr>timerAlert = alert, timerCounter = a, due = d''\<rparr>)]\<rparr>"
  proof (rule orphan_tick)
    show "alertKey alert \<in> ignoredAlerts ?s" using assms(1) by (simp add: eq)
    show "intervalId (counters ?s a) = None" using assms(2) by (simp add: eq)
    show "timers ?s = [(i, \<lparr>timerAlert = alert, timerCounter = a, due = d'\<rparr>)]"
      by (simp add: eq)
    show "now ?s < d'" using d' by simp
  qed
  then obtain d'' where "now ?s + 1 < d''"
    and "tick answers ?s =
        ?s\<lparr>now := now ?s + 1,
          timers := [(i, \<lparr>timerAlert = alert, timerCounter = a, due = d''\<rparr>)]\<rparr>"
    by blast
  then have "now s + Suc n < d'' \<and>
      advance answers (Suc n) s =
        s\<lparr>now := now s + Suc n,
          timers := [(i, \<lparr>timerAlert = alert, timerCounter = a, due = d''\<rparr>)]\<rparr>"
    by (simp add: eq)
  then show ?case by blast
qed

text \<open>
  Claim C9, at a run the component can receive.  The same alert is delivered twice
  within a minute and both dialogs are answered OK: the second delivery starts a second
  timer and overwrites the handle of the first in the counter.  A minute later the
  first timer fires and its dialog is answered Cancel.  The identity is now ignored and
  the timer whose handle the counter held is cleared, but the first timer, the one that
  fired, is still live; it stays live however much time passes, and the global clear
  does not clear it either.  No further dialog is shown as time passes, nor when the
  alert is delivered again.
\<close>

theorem C9_cancel_leaves_earlier_timer_live:
  "(let s = run (\<lambda>n. n \<noteq> 2) [Deliver exampleAlert, Deliver exampleAlert, Elapse 60000]
              initialEscalator
    in shown s = [(alertKey exampleAlert, 1), (alertKey exampleAlert, 1),
                  (alertKey exampleAlert, 2)] \<and>
       ignoredAlerts s = {alertKey exampleAlert} \<and>
       alertCounters s = [(alertKey exampleAlert, 0)] \<and>
       intervalId (counters s 0) = None \<and>
       timersOf (alertKey exampleAlert) s =
         [(1, \<lparr>timerAlert = exampleAlert, timerCounter = 0, due = 120000\<rparr>)] \<and>
       map fst (timersOf (alertKey exampleAlert) (advance answers n s)) = [1] \<and>
       shown (advance answers n s) = shown s \<and>
       shown (showThresholdAlert answers exampleAlert (advance answers n s)) = shown s \<and>
       map fst (timersOf (alertKey exampleAlert) (clearAllNotifications s)) = [1])"
proof -
  let ?s = "run (\<lambda>n. n \<noteq> 2) [Deliver exampleAlert, Deliver exampleAlert, Elapse 60000]
              initialEscalator"
  have "\<exists>d'. now ?s + n < d' \<and>
      advance answers n ?s =
        ?s\<lparr>now := now ?s + n,
          timers := [(1, \<lparr>timerAlert = exampleAlert, timerCounter = 0, due = d'\<rparr>)]\<rparr>"
    unfolding minute_later by (rule orphan_advance [where d = 120000]) simp_all
  then obtain d' where
    adv: "advance answers n ?s =
        ?s\<lparr>now := now ?s + n,
          timers := [(1, \<lparr>timerAlert = exampleAlert, timerCounter = 0, due = d'\<rparr>)]\<rparr>"
    by blast
  have later: "map fst (timersOf (alertKey exampleAlert) (advance answers n ?s)) = [1]"
    "shown (advance answers n ?s) = shown ?s"
    "shown (showThresholdAlert answers exampleAlert (advance answers n ?s)) = shown ?s"
    unfolding adv unfolding minute_later
    by (simp_all add: timersOf_def showThresholdAlert_def)
  have at: "shown ?s = [(alertKey exampleAlert, 1), (alertKey exampleAlert, 1),
                  (alertKey exampleAlert, 2)]"
    "ignoredAlerts ?s = {alertKey exampleAlert}"
    "alertCounters ?s = [(alertKey exampleAlert, 0)]"
    "intervalId (counters ?s 0) = None"
    "timersOf (alertKey exampleAlert) ?s =
         [(1, \<lparr>timerAlert = exampleAlert, timerCounter = 0, due = 120000\<rparr>)]"
    "map fst (timersOf (alertKey exampleAlert) (clearAllNotifications ?s)) = [1]"
    unfolding minute_later
    by (simp_all add: timersOf_def clearAllNotifications_def)
  show ?thesis unfolding Let_def using at later by blast
qed

end
